theory Spec2Isabelle
  imports Main "HOL-Library.Word"
begin

section \<open>The VirtualBox back end of capstan: data and the outside world\<close>

text \<open>
  The package drives two external programs (\<open>VBoxManage\<close>, \<open>VBoxHeadless\<close>), connects
  to a console socket and sleeps between connection attempts. Every such effect is
  recorded as an \<open>event\<close> appended to a trace; what the outside world answers is read
  from a \<open>world\<close>, whose answers may depend on everything that happened before (the
  trace so far). Each source function takes the trace and returns it extended.
\<close>

text \<open>Go \<open>error\<close> values: those built by \<open>fmt.Errorf\<close> in this package, the
  \<open>*exec.ExitError\<close> of a process that exited with a nonzero status, and any other error
  handed over by the operating system or a library (carried with its message).\<close>

datatype error = Errorf string | ExitError int | OsError string

text \<open>A process run to completion either could not be started, or exited with a status
  and the bytes it wrote to its standard output.\<close>

datatype exec_outcome = StartFailed error | Exited int string

text \<open>\<open>*exec.Cmd\<close> as \<open>exec.Command\<close> builds it: \<open>Path\<close> is the program name
  resolved along \<open>$PATH\<close>, \<open>Args\<close> is the program name followed by the arguments.\<close>

record cmd =
  Path :: string
  Args :: "string list"

text \<open>\<open>net.Conn\<close>: the address the connection was opened to.\<close>

datatype conn = Conn string

datatype copy_direction = StdinToConn | ConnToStdout

datatype event =
    Run string "string list"        \<comment> \<open>\<open>cmd.Start()\<close> then \<open>cmd.Wait()\<close>\<close>
  | Output string "string list"     \<comment> \<open>\<open>cmd.Output()\<close>\<close>
  | Start string "string list"      \<comment> \<open>\<open>cmd.Start()\<close> alone: the process keeps running\<close>
  | Connect string                  \<comment> \<open>\<open>util.Connect(path)\<close>\<close>
  | Sleep nat                       \<comment> \<open>\<open>time.Sleep\<close>, in milliseconds\<close>
  | GoCopy copy_direction "conn option"  \<comment> \<open>\<open>go io.Copy(...)\<close>\<close>

type_synonym trace = "event list"

text \<open>The outside world. \<open>windows\<close> is \<open>runtime.GOOS == "windows"\<close>; \<open>filepath_Join\<close> is
  the platform's \<open>filepath.Join\<close> of the Go standard library; \<open>look_path\<close> is what
  \<open>exec.Command\<close> makes of a program name (the path \<open>exec.LookPath\<close> finds, or the name
  itself when it finds none); \<open>connect\<close> is
  \<open>util.Connect\<close>, a helper of the repository whose source is platform specific and is
  taken as a parameter here.\<close>

record world =
  windows :: bool
  filepath_Join :: "string list \<Rightarrow> string"
  look_path :: "string \<Rightarrow> string"
  exec :: "trace \<Rightarrow> string \<Rightarrow> string list \<Rightarrow> exec_outcome"
  start :: "trace \<Rightarrow> string \<Rightarrow> string list \<Rightarrow> error option"
  connect :: "trace \<Rightarrow> string \<Rightarrow> error + conn"

text \<open>Modelled from the spec: \<open>nat.Rule\<close>, a guest port and a host port, both strings
  (the type is declared in another package of the repository).\<close>

record Rule =
  GuestPort :: string
  HostPort :: string

text \<open>Go's \<open>int\<close> is taken at 64 bits.\<close>

record VMConfig =
  Name :: string
  Dir :: string
  Image :: string
  Memory :: "64 word"
  Cpus :: "64 word"
  NatRules :: "Rule list"

section \<open>Formatting\<close>

definition dq :: char where
  "dq = CHR 0x22"

definition nl :: char where
  "nl = CHR 0x0A"

text \<open>\<open>strings.Join(elems, sep)\<close>.\<close>

fun strings_Join :: "string list \<Rightarrow> string \<Rightarrow> string" where
  "strings_Join [] sep = []"
| "strings_Join [x] sep = x"
| "strings_Join (x # y # ys) sep = x @ sep @ strings_Join (y # ys) sep"

text \<open>The verb \<open>%s\<close> of \<open>fmt\<close> applied to a \<open>[]string\<close>: the elements separated by
  single spaces, in square brackets.\<close>

definition Sprint_strings :: "string list \<Rightarrow> string" where
  "Sprint_strings args = ''['' @ strings_Join args '' '' @ '']''"

text \<open>The decimal digits of a number, most significant first, each read from the table of
  digits as \<open>strconv\<close> does.\<close>

function nat_digits :: "nat \<Rightarrow> string" where
  "nat_digits n =
     (if n < 10 then [''0123456789'' ! n]
      else nat_digits (n div 10) @ [''0123456789'' ! (n mod 10)])"
  by pat_completeness auto
termination
  by (relation "measure (\<lambda>n. n)") auto

declare nat_digits.simps [simp del]

text \<open>\<open>strconv.FormatInt(i, 10)\<close> and \<open>strconv.Itoa\<close>.\<close>

definition FormatInt :: "int \<Rightarrow> string" where
  "FormatInt i = (if i < 0 then ''-'' @ nat_digits (nat (- i)) else nat_digits (nat i))"

section \<open>The command executor\<close>

text \<open>\<open>VBoxManage(args...)\<close>: start the program and wait for it. A start error is returned
  as it is; any error of \<open>Wait\<close> (the program exited with a nonzero status) is replaced by
  \<open>fmt.Errorf("VBoxManage %s", args)\<close>.\<close>

definition VBoxManage :: "world \<Rightarrow> string list \<Rightarrow> trace \<Rightarrow> error option \<times> trace" where
  "VBoxManage w args tr =
     (case exec w tr ''VBoxManage'' args of
        StartFailed err \<Rightarrow> (Some err, tr @ [Run ''VBoxManage'' args])
      | Exited status out \<Rightarrow>
          (if status \<noteq> 0
           then (Some (Errorf (''VBoxManage '' @ Sprint_strings args)),
                 tr @ [Run ''VBoxManage'' args])
           else (None, tr @ [Run ''VBoxManage'' args])))"

text \<open>\<open>VBoxHeadless(args...)\<close>: start the program and return the handle with the start
  error, without waiting.\<close>

definition VBoxHeadless :: "world \<Rightarrow> string list \<Rightarrow> trace \<Rightarrow> (cmd \<times> error option) \<times> trace" where
  "VBoxHeadless w args tr =
     ((\<lparr>Path = look_path w ''VBoxHeadless'', Args = ''VBoxHeadless'' # args\<rparr>,
       start w tr ''VBoxHeadless'' args),
      tr @ [Start ''VBoxHeadless'' args])"

definition DeleteVM :: "world \<Rightarrow> VMConfig \<Rightarrow> trace \<Rightarrow> error option \<times> trace" where
  "DeleteVM w c tr = VBoxManage w [''unregistervm'', Name c, ''--delete''] tr"

definition StopVM :: "world \<Rightarrow> string \<Rightarrow> trace \<Rightarrow> error option \<times> trace" where
  "StopVM w name tr = VBoxManage w [''controlvm'', name, ''poweroff''] tr"

section \<open>The inventory query\<close>

text \<open>\<open>strings.Split(s, sep)\<close> for a separator of one byte: the pieces between the
  separators, one piece more than there are separators.\<close>

fun strings_Split :: "string \<Rightarrow> char \<Rightarrow> string list" where
  "strings_Split [] sep = [[]]"
| "strings_Split (c # cs) sep =
     (if c = sep then [] # strings_Split cs sep
      else (case strings_Split cs sep of
              [] \<Rightarrow> [[c]]
            | l # ls \<Rightarrow> (c # l) # ls))"

text \<open>\<open>r.FindStringSubmatch(line)\<close> for the pattern \<open>"(.*)"\<close> compiled in \<open>vmList\<close>, on a
  line without a newline (the lines come from splitting at newlines). Go's matcher takes the
  leftmost match, so the match starts at the first double quote; \<open>.*\<close> is greedy, so it ends
  at the last double quote after it. The result is the whole match followed by the group,
  or the empty slice when the line has fewer than two double quotes.\<close>

definition FindStringSubmatch :: "string \<Rightarrow> string list" where
  "FindStringSubmatch line =
     (case dropWhile (\<lambda>ch. ch \<noteq> dq) line of
        [] \<Rightarrow> []
      | q # after \<Rightarrow>
          (if dq \<in> set after
           then (let grp = rev (tl (dropWhile (\<lambda>ch. ch \<noteq> dq) (rev after)))
                 in [q # grp @ [dq], grp])
           else []))"

fun vmList_loop :: "string list \<Rightarrow> string list \<Rightarrow> string list" where
  "vmList_loop [] vms = vms"
| "vmList_loop (line # lines) vms =
     (let vm = FindStringSubmatch line
      in if length vm > 0 then vmList_loop lines (vms @ [vm ! 1])
         else vmList_loop lines vms)"

definition vmList :: "world \<Rightarrow> trace \<Rightarrow> (error + string list) \<times> trace" where
  "vmList w tr =
     (case exec w tr ''VBoxManage'' [''list'', ''vms''] of
        StartFailed err \<Rightarrow> (Inl err, tr @ [Output ''VBoxManage'' [''list'', ''vms'']])
      | Exited status out \<Rightarrow>
          (if status \<noteq> 0
           then (Inl (ExitError status), tr @ [Output ''VBoxManage'' [''list'', ''vms'']])
           else (Inr (vmList_loop (strings_Split out nl) []),
                 tr @ [Output ''VBoxManage'' [''list'', ''vms'']])))"

fun vmExists_loop :: "string list \<Rightarrow> string \<Rightarrow> bool" where
  "vmExists_loop [] vmName = False"
| "vmExists_loop (vm # vms) vmName = (if vm = vmName then True else vmExists_loop vms vmName)"

definition vmExists :: "world \<Rightarrow> string \<Rightarrow> trace \<Rightarrow> (error + bool) \<times> trace" where
  "vmExists w vmName tr =
     (case vmList w tr of
        (Inl err, tr1) \<Rightarrow> (Inl err, tr1)
      | (Inr vms, tr1) \<Rightarrow> (Inr (vmExists_loop vms vmName), tr1))"

section \<open>Paths\<close>

definition sockPath :: "world \<Rightarrow> VMConfig \<Rightarrow> string" where
  "sockPath w c =
     (if windows w then [CHR 0x5C, CHR 0x5C, CHR ''.'', CHR 0x5C] @ ''pipe'' @ [CHR 0x5C] @ Name c
      else filepath_Join w [Dir c, Name c, Name c @ ''.sock''])"

definition storagePath :: "world \<Rightarrow> VMConfig \<Rightarrow> string" where
  "storagePath w c = filepath_Join w [Dir c, Name c, ''disk.vdi'']"

text \<open>\<open>filepath.Clean\<close> and \<open>filepath.Join\<close> of the Go standard library on Unix, after
  their documentation: the path is cut at slashes; empty elements and \<open>.\<close> are dropped;
  \<open>..\<close> removes the element before it, is dropped at the root, and is kept at the front of
  a relative path; the empty result is \<open>.\<close>. \<open>Join\<close> ignores leading empty elements, joins
  the others with slashes and cleans the result.\<close>

definition clean_step :: "bool \<Rightarrow> string list \<Rightarrow> string \<Rightarrow> string list" where
  "clean_step rooted st e =
     (if e = [] \<or> e = ''.'' then st
      else if e = ''..''
      then (if st \<noteq> [] \<and> last st \<noteq> ''..'' then butlast st
            else if rooted then st else st @ [''..''])
      else st @ [e])"

definition unix_Clean :: "string \<Rightarrow> string" where
  "unix_Clean p =
     (if p = [] then ''.''
      else (let rooted = (hd p = CHR ''/'');
                st = foldl (clean_step rooted) [] (strings_Split p CHR ''/'')
            in if rooted then ''/'' @ strings_Join st ''/''
               else if st = [] then ''.'' else strings_Join st ''/''))"

definition unix_Join :: "string list \<Rightarrow> string" where
  "unix_Join elem =
     (case dropWhile (\<lambda>e. e = []) elem of
        [] \<Rightarrow> []
      | e # es \<Rightarrow> unix_Clean (strings_Join (e # es) ''/''))"

text \<open>A plain path element is not empty, holds no slash and is neither \<open>.\<close> nor
  \<open>..\<close>; a plain directory is made of plain elements separated by single slashes, with or
  without a leading slash.\<close>

definition plain_elem :: "string \<Rightarrow> bool" where
  "plain_elem e = (e \<noteq> [] \<and> CHR ''/'' \<notin> set e \<and> e \<noteq> ''.'' \<and> e \<noteq> ''..'')"

definition plain_dir :: "string \<Rightarrow> bool" where
  "plain_dir d =
     (d \<noteq> [] \<and>
      list_all plain_elem (strings_Split (if hd d = CHR ''/'' then tl d else d) CHR ''/''))"

section \<open>The provisioner\<close>

text \<open>The forwarding rule of one NAT rule:
  \<open>fmt.Sprintf("guest%s,tcp,,%s,,%s", rule.GuestPort, rule.HostPort, rule.GuestPort)\<close>.\<close>

definition natRule :: "Rule \<Rightarrow> string" where
  "natRule rule = ''guest'' @ GuestPort rule @ '',tcp,,'' @ HostPort rule @ '',,'' @ GuestPort rule"

fun vmSetupNAT_loop :: "world \<Rightarrow> VMConfig \<Rightarrow> Rule list \<Rightarrow> trace \<Rightarrow> error option \<times> trace" where
  "vmSetupNAT_loop w c [] tr = (None, tr)"
| "vmSetupNAT_loop w c (rule # rules) tr =
     (case VBoxManage w [''modifyvm'', Name c, ''--natpf1'', natRule rule] tr of
        (Some err, tr1) \<Rightarrow> (Some err, tr1)
      | (None, tr1) \<Rightarrow> vmSetupNAT_loop w c rules tr1)"

definition vmSetupNAT :: "world \<Rightarrow> VMConfig \<Rightarrow> trace \<Rightarrow> error option \<times> trace" where
  "vmSetupNAT w c tr = vmSetupNAT_loop w c (NatRules c) tr"

definition vmCreate :: "world \<Rightarrow> VMConfig \<Rightarrow> trace \<Rightarrow> error option \<times> trace" where
  "vmCreate w c tr0 =
    (case VBoxManage w [''createvm'', ''--name'', Name c, ''--basefolder'', Dir c,
                        ''-ostype'', ''Linux26_64''] tr0 of
       (Some err, tr1) \<Rightarrow> (Some err, tr1)
     | (None, tr1) \<Rightarrow>
    (case VBoxManage w [''registervm'',
                        filepath_Join w [Dir c, Name c, Name c @ ''.vbox'']] tr1 of
       (Some err, tr2) \<Rightarrow> (Some err, tr2)
     | (None, tr2) \<Rightarrow>
    (case VBoxManage w [''clonehd'', Image c, storagePath w c] tr2 of
       (Some err, tr3) \<Rightarrow> (Some err, tr3)
     | (None, tr3) \<Rightarrow>
    (case VBoxManage w [''storagectl'', Name c, ''--name'', ''SATA'', ''--add'', ''sata'',
                        ''--controller'', ''IntelAHCI''] tr3 of
       (Some err, tr4) \<Rightarrow> (Some err, tr4)
     | (None, tr4) \<Rightarrow>
    (case VBoxManage w [''storageattach'', Name c, ''--storagectl'', ''SATA'', ''--port'', ''0'',
                        ''--type'', ''hdd'', ''--medium'', storagePath w c] tr4 of
       (Some err, tr5) \<Rightarrow> (Some err, tr5)
     | (None, tr5) \<Rightarrow>
    (case VBoxManage w [''modifyvm'', Name c, ''--nic1'', ''nat'', ''--nictype1'', ''virtio''] tr5 of
       (Some err, tr6) \<Rightarrow> (Some err, tr6)
     | (None, tr6) \<Rightarrow>
    (case vmSetupNAT w c tr6 of
       (Some err, tr7) \<Rightarrow> (Some err, tr7)
     | (None, tr7) \<Rightarrow>
    (case VBoxManage w [''modifyvm'', Name c, ''--hpet'', ''on''] tr7 of
       (Some err, tr8) \<Rightarrow> (Some err, tr8)
     | (None, tr8) \<Rightarrow>
    (case VBoxManage w [''modifyvm'', Name c, ''--uart1'', ''0x3f8'', ''4'', ''--uartmode1'',
                        ''server'', sockPath w c] tr8 of
       (Some err, tr9) \<Rightarrow> (Some err, tr9)
     | (None, tr9) \<Rightarrow>
    (case VBoxManage w [''modifyvm'', Name c, ''--memory'', FormatInt (sint (Memory c))] tr9 of
       (Some err, tr10) \<Rightarrow> (Some err, tr10)
     | (None, tr10) \<Rightarrow>
    (case VBoxManage w [''modifyvm'', Name c, ''--cpus'', FormatInt (sint (Cpus c))] tr10 of
       (Some err, tr11) \<Rightarrow> (Some err, tr11)
     | (None, tr11) \<Rightarrow> (None, tr11))))))))))))"

section \<open>The launcher\<close>

text \<open>The connection loop of \<open>LaunchVM\<close>, with the loop variable \<open>i\<close> and the variables
  \<open>conn\<close> and \<open>err\<close> it assigns:
  \<^verbatim>\<open>for i := 0; i < 5; i++ { conn, err = util.Connect(c.sockPath());
       if err == nil { break }; time.Sleep(500 * time.Millisecond) }\<close>\<close>

function connect_loop ::
  "world \<Rightarrow> VMConfig \<Rightarrow> nat \<Rightarrow> conn option \<times> error option \<Rightarrow> trace
     \<Rightarrow> (conn option \<times> error option) \<times> trace" where
  "connect_loop w c i vars tr =
     (if i < 5
      then (case connect w tr (sockPath w c) of
              Inr cn \<Rightarrow> ((Some cn, None), tr @ [Connect (sockPath w c)])
            | Inl err \<Rightarrow>
                connect_loop w c (i + 1) (None, Some err)
                  (tr @ [Connect (sockPath w c)] @ [Sleep 500]))
      else (vars, tr))"
  by pat_completeness auto
termination
  by (relation "measure (\<lambda>(w, c, i, vars, tr). 5 - i)") auto

declare connect_loop.simps [simp del]

definition LaunchVM :: "world \<Rightarrow> VMConfig \<Rightarrow> trace \<Rightarrow> (error + cmd) \<times> trace" where
  "LaunchVM w c tr0 =
    (case vmExists w (Name c) tr0 of
       (Inl err, tr1) \<Rightarrow> (Inl err, tr1)
     | (Inr exists, tr1) \<Rightarrow>
    (case (if exists then DeleteVM w c tr1 else (None, tr1)) of
       (Some err, tr2) \<Rightarrow> (Inl err, tr2)
     | (None, tr2) \<Rightarrow>
    (case vmCreate w c tr2 of
       (Some err, tr3) \<Rightarrow> (Inl err, tr3)
     | (None, tr3) \<Rightarrow>
    (case VBoxHeadless w [''--startvm'', Name c] tr3 of
       ((cmd, Some err), tr4) \<Rightarrow> (Inl err, tr4)
     | ((cmd, None), tr4) \<Rightarrow>
    (case connect_loop w c 0 (None, None) tr4 of
       ((conn, Some err), tr5) \<Rightarrow> (Inl err, tr5)
     | ((conn, None), tr5) \<Rightarrow>
         (Inr cmd, tr5 @ [GoCopy StdinToConn conn, GoCopy ConnToStdout conn]))))))"

text \<open>The time a trace spends sleeping, in milliseconds, and the events of some kinds.\<close>

fun total_sleep :: "trace \<Rightarrow> nat" where
  "total_sleep [] = 0"
| "total_sleep (Sleep ms # evs) = ms + total_sleep evs"
| "total_sleep (ev # evs) = total_sleep evs"

fun is_Run :: "event \<Rightarrow> bool" where
  "is_Run (Run prog args) = True"
| "is_Run ev = False"

fun is_Connect :: "event \<Rightarrow> bool" where
  "is_Connect (Connect path) = True"
| "is_Connect ev = False"

section \<open>What the documentation says, as definitions\<close>

text \<open>The documented provisioning sequence: create the VM record, register it, clone the
  source image, create a storage controller, attach the cloned disk, set the network adapter
  to NAT with a virtio NIC, apply each NAT rule, enable the high-precision timer, redirect
  the serial port to the socket path, set the memory, set the CPU count.\<close>

definition provision_cmds :: "world \<Rightarrow> VMConfig \<Rightarrow> string list list" where
  "provision_cmds w c =
     [[''createvm'', ''--name'', Name c, ''--basefolder'', Dir c, ''-ostype'', ''Linux26_64''],
      [''registervm'', filepath_Join w [Dir c, Name c, Name c @ ''.vbox'']],
      [''clonehd'', Image c, filepath_Join w [Dir c, Name c, ''disk.vdi'']],
      [''storagectl'', Name c, ''--name'', ''SATA'', ''--add'', ''sata'',
       ''--controller'', ''IntelAHCI''],
      [''storageattach'', Name c, ''--storagectl'', ''SATA'', ''--port'', ''0'',
       ''--type'', ''hdd'', ''--medium'', filepath_Join w [Dir c, Name c, ''disk.vdi'']],
      [''modifyvm'', Name c, ''--nic1'', ''nat'', ''--nictype1'', ''virtio'']]
     @ map (\<lambda>rule. [''modifyvm'', Name c, ''--natpf1'', natRule rule]) (NatRules c)
     @ [[''modifyvm'', Name c, ''--hpet'', ''on''],
        [''modifyvm'', Name c, ''--uart1'', ''0x3f8'', ''4'', ''--uartmode1'', ''server'',
         sockPath w c],
        [''modifyvm'', Name c, ''--memory'', FormatInt (sint (Memory c))],
        [''modifyvm'', Name c, ''--cpus'', FormatInt (sint (Cpus c))]]"

text \<open>Issuing a list of management commands in order, stopping at the first that fails
  with its error.\<close>

fun run_steps :: "world \<Rightarrow> string list list \<Rightarrow> trace \<Rightarrow> error option \<times> trace" where
  "run_steps w [] tr = (None, tr)"
| "run_steps w (args # rest) tr =
     (case VBoxManage w args tr of
        (Some err, tr1) \<Rightarrow> (Some err, tr1)
      | (None, tr1) \<Rightarrow> run_steps w rest tr1)"

text \<open>The result of the \<open>i\<close>-th command of a list, issued after the ones before it.\<close>

definition step_result :: "world \<Rightarrow> string list list \<Rightarrow> trace \<Rightarrow> nat \<Rightarrow> error option" where
  "step_result w cmds tr i =
     fst (VBoxManage w (cmds ! i) (tr @ map (Run ''VBoxManage'') (take i cmds)))"

text \<open>The number of management commands \<open>vmCreate\<close> issued.\<close>

definition issued :: "world \<Rightarrow> VMConfig \<Rightarrow> trace \<Rightarrow> nat" where
  "issued w c tr = length (snd (vmCreate w c tr)) - length tr"

text \<open>The events of \<open>k\<close> failed connection attempts: each attempt followed by its sleep.\<close>

definition retries :: "string \<Rightarrow> nat \<Rightarrow> trace" where
  "retries path k = concat (replicate k [Connect path, Sleep 500])"

text \<open>A line holds a quoted token when it has an opening and a closing double quote.\<close>

definition has_quoted_token :: "string \<Rightarrow> bool" where
  "has_quoted_token line = (2 \<le> length (filter (\<lambda>ch. ch = dq) line))"

text \<open>The command that unregisters a VM and deletes its files.\<close>

definition delete_event :: "VMConfig \<Rightarrow> event" where
  "delete_event c = Run ''VBoxManage'' [''unregistervm'', Name c, ''--delete'']"

section \<open>Example worlds\<close>

text \<open>A configuration, and a Unix host on which every management command succeeds and the
  inventory lists \<open>vm1\<close> before a line without a name. On \<open>host_up\<close> the console socket
  accepts the third connection attempt; on \<open>host_down\<close> it never does.\<close>

definition cfg :: VMConfig where
  "cfg = \<lparr>Name = ''vm1'', Dir = ''/var/capstan'', Image = ''/img/osv.vdi'',
          Memory = 1024, Cpus = 2,
          NatRules = [\<lparr>GuestPort = ''8080'', HostPort = ''9090''\<rparr>]\<rparr>"

text \<open>The same configuration under the name \<open>vm\<close>, which the inventory does not list
  although it lists a name that starts with it.\<close>

definition cfg_vm :: VMConfig where
  "cfg_vm = cfg\<lparr>Name := ''vm''\<rparr>"

text \<open>The same configuration with an empty directory.\<close>

definition cfg_nodir :: VMConfig where
  "cfg_nodir = cfg\<lparr>Dir := []\<rparr>"

definition inventory_text :: string where
  "inventory_text = [dq] @ ''vm1'' @ [dq] @ '' {uuid}'' @ [nl] @ ''garbage line''"

definition host_exec :: "trace \<Rightarrow> string \<Rightarrow> string list \<Rightarrow> exec_outcome" where
  "host_exec tr prog args =
     (if args = [''list'', ''vms''] then Exited 0 inventory_text else Exited 0 [])"

definition host_up :: world where
  "host_up = \<lparr>windows = False, filepath_Join = unix_Join,
     look_path = (\<lambda>name. ''/usr/bin/'' @ name), exec = host_exec,
     start = (\<lambda>tr prog args. None),
     connect = (\<lambda>tr path. if 2 \<le> length (filter is_Connect tr)
                            then Inr (Conn path)
                            else Inl (OsError ''connection refused''))\<rparr>"

text \<open>On \<open>host_nat_fails\<close> the management program exits with status 1 on every
  port-forwarding command.\<close>

definition host_nat_fails :: world where
  "host_nat_fails = \<lparr>windows = False, filepath_Join = unix_Join,
     look_path = (\<lambda>name. ''/usr/bin/'' @ name),
     exec = (\<lambda>tr prog args. if length args = 4 \<and> args ! 2 = ''--natpf1''
                               then Exited 1 [] else host_exec tr prog args),
     start = (\<lambda>tr prog args. None),
     connect = (\<lambda>tr path. Inr (Conn path))\<rparr>"

text \<open>A Windows host; its \<open>filepath.Join\<close> is given for elements that are already clean,
  which it joins with backslashes.\<close>

definition host_windows :: world where
  "host_windows = \<lparr>windows = True,
     filepath_Join = (\<lambda>elem. strings_Join elem [CHR 0x5C]),
     look_path = (\<lambda>name. name @ ''.exe''), exec = host_exec,
     start = (\<lambda>tr prog args. None),
     connect = (\<lambda>tr path. Inr (Conn path))\<rparr>"

text \<open>On \<open>host_missing\<close> the management program cannot be started.\<close>

definition host_missing :: world where
  "host_missing = \<lparr>windows = False, filepath_Join = unix_Join,
     look_path = (\<lambda>name. name),
     exec = (\<lambda>tr prog args. StartFailed (OsError ''executable file not found in $PATH'')),
     start = (\<lambda>tr prog args. None),
     connect = (\<lambda>tr path. Inr (Conn path))\<rparr>"

definition host_down :: world where
  "host_down = \<lparr>windows = False, filepath_Join = unix_Join,
     look_path = (\<lambda>name. ''/usr/bin/'' @ name), exec = host_exec,
     start = (\<lambda>tr prog args. None),
     connect = (\<lambda>tr path. Inl (OsError ''connection refused''))\<rparr>"

section \<open>Facts about the executor and the provisioner\<close>

lemma run_steps_append:
  "run_steps w (xs @ ys) tr =
     (case run_steps w xs tr of
        (Some err, tr1) \<Rightarrow> (Some err, tr1)
      | (None, tr1) \<Rightarrow> run_steps w ys tr1)"
  by (induction xs arbitrary: tr) (auto split: prod.splits option.splits)

lemma vmSetupNAT_loop_run_steps:
  "vmSetupNAT_loop w c rules tr =
     run_steps w (map (\<lambda>rule. [''modifyvm'', Name c, ''--natpf1'', natRule rule]) rules) tr"
  by (induction rules arbitrary: tr) (auto split: prod.splits option.splits)

lemma run_steps_Cons_case:
  "run_steps w (args # rest) tr =
     (case VBoxManage w args tr of
        (Some err, tr1) \<Rightarrow> (Some err, tr1)
      | (None, tr1) \<Rightarrow> run_steps w rest tr1)"
  by simp

lemma vmCreate_run_steps: "vmCreate w c tr = run_steps w (provision_cmds w c) tr"
  unfolding vmCreate_def provision_cmds_def vmSetupNAT_def vmSetupNAT_loop_run_steps
    storagePath_def append_Cons append_Nil run_steps_Cons_case run_steps_append
    run_steps.simps(1)
  by (rule refl)

lemma VBoxManage_snd: "snd (VBoxManage w args tr) = tr @ [Run ''VBoxManage'' args]"
  by (simp add: VBoxManage_def split: exec_outcome.splits)

lemma VBoxManage_eq: "VBoxManage w args tr = (fst (VBoxManage w args tr), tr @ [Run ''VBoxManage'' args])"
  by (metis VBoxManage_snd prod.collapse)

lemma run_steps_shape:
  "\<exists>k\<le>length cmds.
     snd (run_steps w cmds tr) = tr @ map (Run ''VBoxManage'') (take k cmds)
     \<and> (\<forall>i<k. Suc i < k \<longrightarrow> step_result w cmds tr i = None)
     \<and> (fst (run_steps w cmds tr) = None \<longrightarrow>
           k = length cmds \<and> (\<forall>i<k. step_result w cmds tr i = None))
     \<and> (\<forall>err. fst (run_steps w cmds tr) = Some err \<longrightarrow>
           0 < k \<and> step_result w cmds tr (k - 1) = Some err)"
proof (induction cmds arbitrary: tr)
  case Nil
  show ?case by simp
next
  case (Cons args rest)
  show ?case
  proof (cases "fst (VBoxManage w args tr)")
    case (Some err)
    then have "run_steps w (args # rest) tr = (Some err, tr @ [Run ''VBoxManage'' args])"
      using VBoxManage_eq [of w args tr] by (simp split: prod.splits)
    then show ?thesis
      using Some by (intro exI [of _ 1]) (simp add: step_result_def)
  next
    case None
    let ?tr1 = "tr @ [Run ''VBoxManage'' args]"
    have run: "run_steps w (args # rest) tr = run_steps w rest ?tr1"
      using None VBoxManage_eq [of w args tr] by (simp split: prod.splits)
    have shift: "step_result w (args # rest) tr (Suc i) = step_result w rest ?tr1 i" for i
      by (simp add: step_result_def)
    have zero: "step_result w (args # rest) tr 0 = None"
      using None by (simp add: step_result_def)
    from Cons.IH [of ?tr1] obtain k where k: "k \<le> length rest"
      "snd (run_steps w rest ?tr1) = ?tr1 @ map (Run ''VBoxManage'') (take k rest)"
      "\<forall>i<k. Suc i < k \<longrightarrow> step_result w rest ?tr1 i = None"
      "fst (run_steps w rest ?tr1) = None \<longrightarrow>
         k = length rest \<and> (\<forall>i<k. step_result w rest ?tr1 i = None)"
      "\<forall>err. fst (run_steps w rest ?tr1) = Some err \<longrightarrow>
         0 < k \<and> step_result w rest ?tr1 (k - 1) = Some err"
      by (elim exE conjE) (rule that)
    have a: "\<forall>i<Suc k. Suc i < Suc k \<longrightarrow> step_result w (args # rest) tr i = None"
    proof (intro allI impI)
      fix i assume "i < Suc k" "Suc i < Suc k"
      then show "step_result w (args # rest) tr i = None"
        using k(3) zero shift by (cases i) auto
    qed
    have b: "fst (run_steps w rest ?tr1) = None \<longrightarrow>
         Suc k = length (args # rest) \<and> (\<forall>i<Suc k. step_result w (args # rest) tr i = None)"
    proof (intro impI conjI allI)
      assume n: "fst (run_steps w rest ?tr1) = None"
      then show "Suc k = length (args # rest)" using k(4) by simp
      fix i assume "i < Suc k"
      then show "step_result w (args # rest) tr i = None"
        using k(4) n zero shift by (cases i) auto
    qed
    have c: "\<forall>err. fst (run_steps w rest ?tr1) = Some err \<longrightarrow>
         0 < Suc k \<and> step_result w (args # rest) tr (Suc k - 1) = Some err"
    proof (intro allI impI conjI)
      fix err assume s: "fst (run_steps w rest ?tr1) = Some err"
      show "0 < Suc k" by simp
      from s k(5) have "0 < k" "step_result w rest ?tr1 (k - 1) = Some err" by auto
      then show "step_result w (args # rest) tr (Suc k - 1) = Some err"
        using shift [of "k - 1"] by simp
    qed
    show ?thesis
      unfolding run
      using k(1,2) a b c by (intro exI [of _ "Suc k"]) simp
  qed
qed

lemma provision_cmds_take:
  "take (6 + length (NatRules c)) (provision_cmds w c) =
     take 6 (provision_cmds w c)
     @ map (\<lambda>rule. [''modifyvm'', Name c, ''--natpf1'', natRule rule]) (NatRules c)"
  by (simp add: provision_cmds_def numeral_eq_Suc)

lemma provision_cmds_drop:
  "drop (6 + length (NatRules c)) (provision_cmds w c) =
     [[''modifyvm'', Name c, ''--hpet'', ''on''],
      [''modifyvm'', Name c, ''--uart1'', ''0x3f8'', ''4'', ''--uartmode1'', ''server'',
       sockPath w c],
      [''modifyvm'', Name c, ''--memory'', FormatInt (sint (Memory c))],
      [''modifyvm'', Name c, ''--cpus'', FormatInt (sint (Cpus c))]]"
  by (simp add: provision_cmds_def numeral_eq_Suc)

lemma provision_tail_fresh:
  assumes "args \<in> set (drop (6 + length (NatRules c)) (provision_cmds w c))"
  shows "args \<notin> set (take (6 + length (NatRules c)) (provision_cmds w c))"
  using assms unfolding provision_cmds_drop provision_cmds_take
  by (auto simp: provision_cmds_def)

text \<open>Claim C2. For every configuration, \<open>vmCreate\<close> issues management commands in
  exactly the documented order (\<open>provision_cmds\<close>): the commands it issued are the first
  \<open>issued w c tr\<close> commands of that list, every issued command but the last succeeded,
  a successful run issued the whole list, and a failing run returns the error of the last
  command it issued, so that no command follows the first failing one. In particular, when the
  failing command is one of the NAT rules, the timer, serial-port, memory and CPU commands are
  not issued.\<close>

theorem vmCreate_ordered_fail_fast:
  "issued w c tr \<le> length (provision_cmds w c)
   \<and> snd (vmCreate w c tr) =
       tr @ map (Run ''VBoxManage'') (take (issued w c tr) (provision_cmds w c))
   \<and> (\<forall>i. Suc i < issued w c tr \<longrightarrow> step_result w (provision_cmds w c) tr i = None)
   \<and> (fst (vmCreate w c tr) = None \<longrightarrow>
        issued w c tr = length (provision_cmds w c)
        \<and> (\<forall>i<issued w c tr. step_result w (provision_cmds w c) tr i = None))
   \<and> (\<forall>err. fst (vmCreate w c tr) = Some err \<longrightarrow>
        0 < issued w c tr
        \<and> step_result w (provision_cmds w c) tr (issued w c tr - 1) = Some err)
   \<and> (\<forall>err. fst (vmCreate w c tr) = Some err \<and> 6 < issued w c tr
          \<and> issued w c tr \<le> 6 + length (NatRules c) \<longrightarrow>
        (\<forall>args\<in>set (drop (6 + length (NatRules c)) (provision_cmds w c)).
           Run ''VBoxManage'' args \<notin> set (drop (length tr) (snd (vmCreate w c tr)))))"
proof -
  let ?cmds = "provision_cmds w c"
  obtain k where k: "k \<le> length ?cmds"
    "snd (run_steps w ?cmds tr) = tr @ map (Run ''VBoxManage'') (take k ?cmds)"
    "\<forall>i<k. Suc i < k \<longrightarrow> step_result w ?cmds tr i = None"
    "fst (run_steps w ?cmds tr) = None \<longrightarrow>
       k = length ?cmds \<and> (\<forall>i<k. step_result w ?cmds tr i = None)"
    "\<forall>err. fst (run_steps w ?cmds tr) = Some err \<longrightarrow>
       0 < k \<and> step_result w ?cmds tr (k - 1) = Some err"
    using run_steps_shape [of ?cmds w tr] by (elim exE conjE) (rule that)
  have ik: "issued w c tr = k"
    unfolding issued_def vmCreate_run_steps using k(1,2) by simp
  have tail: "\<forall>args\<in>set (drop (6 + length (NatRules c)) ?cmds).
           Run ''VBoxManage'' args \<notin> set (drop (length tr) (snd (vmCreate w c tr)))"
    if le: "k \<le> 6 + length (NatRules c)"
  proof
    fix args assume a: "args \<in> set (drop (6 + length (NatRules c)) ?cmds)"
    have "set (take k ?cmds) \<subseteq> set (take (6 + length (NatRules c)) ?cmds)"
      using le by (rule set_take_subset_set_take)
    then have "args \<notin> set (take k ?cmds)"
      using provision_tail_fresh [OF a] by blast
    then show "Run ''VBoxManage'' args \<notin> set (drop (length tr) (snd (vmCreate w c tr)))"
      unfolding vmCreate_run_steps k(2) by auto
  qed
  show ?thesis
    unfolding ik using k tail by (simp add: vmCreate_run_steps)
qed

theorem vmCreate_ordered_fail_fast_witness:
  "fst (vmCreate host_nat_fails cfg []) =
     Some (Errorf ''VBoxManage [modifyvm vm1 --natpf1 guest8080,tcp,,9090,,8080]'')
   \<and> issued host_nat_fails cfg [] = 7
   \<and> step_result host_nat_fails (provision_cmds host_nat_fails cfg) [] 6 =
       Some (Errorf ''VBoxManage [modifyvm vm1 --natpf1 guest8080,tcp,,9090,,8080]'')
   \<and> Run ''VBoxManage'' [''modifyvm'', ''vm1'', ''--hpet'', ''on'']
       \<notin> set (snd (vmCreate host_nat_fails cfg []))
   \<and> Run ''VBoxManage'' [''modifyvm'', ''vm1'', ''--uart1'', ''0x3f8'', ''4'',
         ''--uartmode1'', ''server'', ''/var/capstan/vm1/vm1.sock'']
       \<notin> set (snd (vmCreate host_nat_fails cfg []))
   \<and> Run ''VBoxManage'' [''modifyvm'', ''vm1'', ''--memory'', ''1024'']
       \<notin> set (snd (vmCreate host_nat_fails cfg []))
   \<and> Run ''VBoxManage'' [''modifyvm'', ''vm1'', ''--cpus'', ''2'']
       \<notin> set (snd (vmCreate host_nat_fails cfg []))"
proof -
  have a: "fst (vmCreate host_nat_fails cfg []) =
     Some (Errorf ''VBoxManage [modifyvm vm1 --natpf1 guest8080,tcp,,9090,,8080]'')"
    by code_simp
  have b: "issued host_nat_fails cfg [] = 7"
    by code_simp
  have c: "length (NatRules cfg) = 1"
    by (simp add: cfg_def)
  have m: "drop 7 (provision_cmds host_nat_fails cfg) =
     [[''modifyvm'', ''vm1'', ''--hpet'', ''on''],
      [''modifyvm'', ''vm1'', ''--uart1'', ''0x3f8'', ''4'', ''--uartmode1'', ''server'',
       ''/var/capstan/vm1/vm1.sock''],
      [''modifyvm'', ''vm1'', ''--memory'', ''1024''],
      [''modifyvm'', ''vm1'', ''--cpus'', ''2'']]"
    by code_simp
  have d: "\<forall>args\<in>set (drop 7 (provision_cmds host_nat_fails cfg)).
         Run ''VBoxManage'' args \<notin> set (snd (vmCreate host_nat_fails cfg []))"
    using vmCreate_ordered_fail_fast [of host_nat_fails cfg "[]"]
    unfolding a b c by auto
  have e: "step_result host_nat_fails (provision_cmds host_nat_fails cfg) [] 6 =
       Some (Errorf ''VBoxManage [modifyvm vm1 --natpf1 guest8080,tcp,,9090,,8080]'')"
    using vmCreate_ordered_fail_fast [of host_nat_fails cfg "[]"]
    unfolding a b c by simp
  show ?thesis
    using a b d e unfolding m by simp
qed

section \<open>Facts about the connection loop\<close>

lemma connect_loop_succeeds:
  "i + k < 5 \<Longrightarrow>
   (\<forall>j<k. connect w (tr @ retries (sockPath w c) j) (sockPath w c) = Inl (errs j)) \<Longrightarrow>
   connect w (tr @ retries (sockPath w c) k) (sockPath w c) = Inr cn \<Longrightarrow>
   connect_loop w c i vars tr =
     ((Some cn, None), tr @ retries (sockPath w c) k @ [Connect (sockPath w c)])"
proof (induction k arbitrary: i vars tr errs)
  case 0
  then show ?case
    by (subst connect_loop.simps) (simp add: retries_def)
next
  case (Suc k)
  let ?p = "sockPath w c"
  let ?tr = "tr @ [Connect ?p, Sleep 500]"
  have first: "connect w tr ?p = Inl (errs 0)"
    using Suc.prems(2) [rule_format, of 0] by (simp add: retries_def)
  have rest: "\<forall>j<k. connect w (?tr @ retries ?p j) ?p = Inl (errs (Suc j))"
  proof (intro allI impI)
    fix j assume "j < k"
    then have "Suc j < Suc k" by simp
    from Suc.prems(2) [rule_format, OF this]
    show "connect w (?tr @ retries ?p j) ?p = Inl (errs (Suc j))"
      by (simp add: retries_def)
  qed
  have last: "connect w (?tr @ retries ?p k) ?p = Inr cn"
    using Suc.prems(3) by (simp add: retries_def)
  have "connect_loop w c (i + 1) (None, Some (errs 0)) ?tr =
          ((Some cn, None), ?tr @ retries ?p k @ [Connect ?p])"
    using Suc.IH [of "i + 1" ?tr "\<lambda>j. errs (Suc j)" "(None, Some (errs 0))"] Suc.prems(1) rest last
    by simp
  moreover have "connect_loop w c i vars tr = connect_loop w c (i + 1) (None, Some (errs 0)) ?tr"
    using Suc.prems(1) first by (subst connect_loop.simps) simp
  ultimately show ?case
    by (simp add: retries_def)
qed

lemma connect_loop_fails:
  "i + k = 5 \<Longrightarrow> 0 < k \<Longrightarrow>
   (\<forall>j<k. connect w (tr @ retries (sockPath w c) j) (sockPath w c) = Inl (errs j)) \<Longrightarrow>
   connect_loop w c i vars tr =
     ((None, Some (errs (k - 1))), tr @ retries (sockPath w c) k)"
proof (induction k arbitrary: i vars tr errs)
  case 0
  then show ?case by simp
next
  case (Suc k)
  let ?p = "sockPath w c"
  let ?tr = "tr @ [Connect ?p, Sleep 500]"
  have first: "connect w tr ?p = Inl (errs 0)"
    using Suc.prems(3) [rule_format, of 0] by (simp add: retries_def)
  have step: "connect_loop w c i vars tr = connect_loop w c (i + 1) (None, Some (errs 0)) ?tr"
    using Suc.prems(1) first by (subst connect_loop.simps) simp
  show ?case
  proof (cases "k = 0")
    case True
    then have "i + 1 = 5" using Suc.prems(1) by simp
    then have "connect_loop w c (i + 1) (None, Some (errs 0)) ?tr = ((None, Some (errs 0)), ?tr)"
      by (subst connect_loop.simps) simp
    then show ?thesis using step True by (simp add: retries_def)
  next
    case False
    have rest: "\<forall>j<k. connect w (?tr @ retries ?p j) ?p = Inl (errs (Suc j))"
    proof (intro allI impI)
      fix j assume "j < k"
      then have "Suc j < Suc k" by simp
      from Suc.prems(3) [rule_format, OF this]
      show "connect w (?tr @ retries ?p j) ?p = Inl (errs (Suc j))"
        by (simp add: retries_def)
    qed
    have "connect_loop w c (i + 1) (None, Some (errs 0)) ?tr =
            ((None, Some (errs (Suc (k - 1)))), ?tr @ retries ?p k)"
      using Suc.IH [of "i + 1" ?tr "\<lambda>j. errs (Suc j)" "(None, Some (errs 0))"] Suc.prems(1) rest False
      by simp
    then show ?thesis using step False by (simp add: retries_def)
  qed
qed

lemma connect_loop_events:
  "\<exists>evs. snd (connect_loop w c i vars tr) = tr @ evs
       \<and> (\<forall>ev\<in>set evs. ev = Connect (sockPath w c) \<or> ev = Sleep 500)"
proof (induction w c i vars tr rule: connect_loop.induct)
  case (1 w c i vars tr)
  show ?case
  proof (cases "i < 5")
    case False
    then show ?thesis by (subst connect_loop.simps) simp
  next
    case True
    show ?thesis
    proof (cases "connect w tr (sockPath w c)")
      case (Inr cn)
      then show ?thesis using True by (subst connect_loop.simps) simp
    next
      case (Inl err)
      from "1.IH" [OF True Inl] obtain evs where
        evs: "snd (connect_loop w c (i + 1) (None, Some err)
                 (tr @ [Connect (sockPath w c)] @ [Sleep 500])) =
              (tr @ [Connect (sockPath w c)] @ [Sleep 500]) @ evs"
             "\<forall>ev\<in>set evs. ev = Connect (sockPath w c) \<or> ev = Sleep 500"
        by (elim exE conjE) (rule that)
      show ?thesis
        using True Inl evs
        by (subst connect_loop.simps)
           (intro exI [of _ "[Connect (sockPath w c), Sleep 500] @ evs"], simp)
    qed
  qed
qed


section \<open>The connection retries of the launcher\<close>

text \<open>Claim C1, amended. For a configuration whose VM already exists, once the stale VM is
  deleted, the VM provisioned and the headless process started: when every connection attempt
  fails, the loop makes exactly 5 attempts, sleeps 500 ms after each failed attempt, the
  last one included, for a total of 2500 ms, and \<open>LaunchVM\<close> returns the error of the last
  attempt; when the attempt after \<open>k < 5\<close> failures succeeds, no further attempt is made
  and \<open>LaunchVM\<close> succeeds with the process handle.\<close>

theorem LaunchVM_connection_retries:
  assumes "vmExists w (Name c) tr = (Inr True, tr1)"
    and "DeleteVM w c tr1 = (None, tr2)"
    and "vmCreate w c tr2 = (None, tr3)"
    and "VBoxHeadless w [''--startvm'', Name c] tr3 = ((cmd, None), tr4)"
  shows "((\<forall>j<5. connect w (tr4 @ retries (sockPath w c) j) (sockPath w c) = Inl (errs j)) \<longrightarrow>
            LaunchVM w c tr = (Inl (errs 4), tr4 @ retries (sockPath w c) 5)
            \<and> length (filter is_Connect (retries (sockPath w c) 5)) = 5
            \<and> retries (sockPath w c) 5 =
                [Connect (sockPath w c), Sleep 500, Connect (sockPath w c), Sleep 500,
                 Connect (sockPath w c), Sleep 500, Connect (sockPath w c), Sleep 500,
                 Connect (sockPath w c), Sleep 500]
            \<and> total_sleep (retries (sockPath w c) 5) = 2500)
       \<and> (k < 5 \<and> (\<forall>j<k. connect w (tr4 @ retries (sockPath w c) j) (sockPath w c) = Inl (errs j))
            \<and> connect w (tr4 @ retries (sockPath w c) k) (sockPath w c) = Inr cn \<longrightarrow>
            LaunchVM w c tr =
              (Inr cmd, tr4 @ retries (sockPath w c) k
                        @ [Connect (sockPath w c), GoCopy StdinToConn (Some cn),
                           GoCopy ConnToStdout (Some cn)])
            \<and> length (filter is_Connect (retries (sockPath w c) k @ [Connect (sockPath w c)]))
                = k + 1)"
proof (intro conjI impI)
  let ?p = "sockPath w c"
  have five: "retries ?p 5 =
                [Connect ?p, Sleep 500, Connect ?p, Sleep 500,
                 Connect ?p, Sleep 500, Connect ?p, Sleep 500,
                 Connect ?p, Sleep 500]"
    by (simp add: retries_def numeral_eq_Suc)
  show "retries ?p 5 =
                [Connect ?p, Sleep 500, Connect ?p, Sleep 500,
                 Connect ?p, Sleep 500, Connect ?p, Sleep 500,
                 Connect ?p, Sleep 500]"
    by (rule five)
  show "length (filter is_Connect (retries ?p 5)) = 5"
    unfolding five by simp
  show "total_sleep (retries ?p 5) = 2500"
    unfolding five by simp
  have count: "length (filter is_Connect (retries ?p n)) = n" for n
    by (induction n) (simp_all add: retries_def)
  show "length (filter is_Connect (retries ?p k @ [Connect ?p])) = k + 1"
    using count [of k] by simp
next
  let ?p = "sockPath w c"
  assume all: "\<forall>j<5. connect w (tr4 @ retries ?p j) ?p = Inl (errs j)"
  have "connect_loop w c 0 (None, None) tr4 = ((None, Some (errs (5 - 1))), tr4 @ retries ?p 5)"
    using all by (intro connect_loop_fails) simp_all
  then show "LaunchVM w c tr = (Inl (errs 4), tr4 @ retries ?p 5)"
    using assms by (simp add: LaunchVM_def)
next
  let ?p = "sockPath w c"
  assume ok: "k < 5 \<and> (\<forall>j<k. connect w (tr4 @ retries ?p j) ?p = Inl (errs j))
            \<and> connect w (tr4 @ retries ?p k) ?p = Inr cn"
  have "connect_loop w c 0 (None, None) tr4 = ((Some cn, None), tr4 @ retries ?p k @ [Connect ?p])"
    using ok by (intro connect_loop_succeeds [where errs = errs]) simp_all
  then show "LaunchVM w c tr =
              (Inr cmd, tr4 @ retries ?p k
                        @ [Connect ?p, GoCopy StdinToConn (Some cn), GoCopy ConnToStdout (Some cn)])"
    using assms by (simp add: LaunchVM_def)
qed

text \<open>The claim as stated gives 2 seconds of total delay, a delay only between attempts. On
  a host whose console socket never accepts, the launch of an existing VM makes 5 attempts,
  ends with a sleep and has slept 2500 ms.\<close>

theorem LaunchVM_retry_delay_counterexample:
  "fst (vmExists host_down (Name cfg) []) = Inr True
   \<and> fst (LaunchVM host_down cfg []) = Inl (OsError ''connection refused'')
   \<and> length (filter is_Connect (snd (LaunchVM host_down cfg []))) = 5
   \<and> last (snd (LaunchVM host_down cfg [])) = Sleep 500
   \<and> total_sleep (snd (LaunchVM host_down cfg [])) = 2500
   \<and> total_sleep (snd (LaunchVM host_down cfg [])) \<noteq> 2000"
  by code_simp


theorem LaunchVM_connection_retries_witness:
  "vmExists host_down (Name cfg) [] = (Inr True, [Output ''VBoxManage'' [''list'', ''vms'']])
   \<and> LaunchVM host_down cfg [] =
       (Inl (OsError ''connection refused''),
        snd (VBoxHeadless host_down [''--startvm'', Name cfg]
               (snd (vmCreate host_down cfg (snd (DeleteVM host_down cfg
                  [Output ''VBoxManage'' [''list'', ''vms'']])))))
        @ retries (sockPath host_down cfg) 5)
   \<and> total_sleep (retries (sockPath host_down cfg) 5) = 2500
   \<and> vmExists host_up (Name cfg) [] = (Inr True, [Output ''VBoxManage'' [''list'', ''vms'']])
   \<and> LaunchVM host_up cfg [] =
       (Inr \<lparr>Path = ''/usr/bin/VBoxHeadless'',
              Args = [''VBoxHeadless'', ''--startvm'', ''vm1'']\<rparr>,
        snd (VBoxHeadless host_up [''--startvm'', Name cfg]
               (snd (vmCreate host_up cfg (snd (DeleteVM host_up cfg
                  [Output ''VBoxManage'' [''list'', ''vms'']])))))
        @ retries (sockPath host_up cfg) 2
        @ [Connect (sockPath host_up cfg),
           GoCopy StdinToConn (Some (Conn (sockPath host_up cfg))),
           GoCopy ConnToStdout (Some (Conn (sockPath host_up cfg)))])"
proof -
  let ?t1 = "[Output ''VBoxManage'' [''list'', ''vms'']]"
  let ?h = "\<lparr>Path = ''/usr/bin/VBoxHeadless'',
             Args = [''VBoxHeadless'', ''--startvm'', ''vm1'']\<rparr>"
  let ?e = "\<lambda>j::nat. OsError ''connection refused''"
  have d1: "vmExists host_down (Name cfg) [] = (Inr True, ?t1)"
    by code_simp
  have d2: "DeleteVM host_down cfg ?t1 = (None, snd (DeleteVM host_down cfg ?t1))"
    by code_simp
  have d3: "vmCreate host_down cfg (snd (DeleteVM host_down cfg ?t1)) =
      (None, snd (vmCreate host_down cfg (snd (DeleteVM host_down cfg ?t1))))"
    by code_simp
  have d4: "VBoxHeadless host_down [''--startvm'', Name cfg]
       (snd (vmCreate host_down cfg (snd (DeleteVM host_down cfg ?t1)))) =
      ((?h, None), snd (VBoxHeadless host_down [''--startvm'', Name cfg]
       (snd (vmCreate host_down cfg (snd (DeleteVM host_down cfg ?t1))))))"
    by code_simp
  have d5: "connect host_down h p = Inl (OsError ''connection refused'')" for h p
    by (simp add: host_down_def)
  note down = LaunchVM_connection_retries [OF d1 d2 d3 d4, where errs = ?e, THEN conjunct1]
  have u1: "vmExists host_up (Name cfg) [] = (Inr True, ?t1)"
    by code_simp
  have u2: "DeleteVM host_up cfg ?t1 = (None, snd (DeleteVM host_up cfg ?t1))"
    by code_simp
  have u3: "vmCreate host_up cfg (snd (DeleteVM host_up cfg ?t1)) =
      (None, snd (vmCreate host_up cfg (snd (DeleteVM host_up cfg ?t1))))"
    by code_simp
  have u4: "VBoxHeadless host_up [''--startvm'', Name cfg]
       (snd (vmCreate host_up cfg (snd (DeleteVM host_up cfg ?t1)))) =
      ((?h, None), snd (VBoxHeadless host_up [''--startvm'', Name cfg]
       (snd (vmCreate host_up cfg (snd (DeleteVM host_up cfg ?t1))))))"
    by code_simp
  let ?t4 = "snd (VBoxHeadless host_up [''--startvm'', Name cfg]
       (snd (vmCreate host_up cfg (snd (DeleteVM host_up cfg ?t1)))))"
  let ?p = "sockPath host_up cfg"
  have a0: "connect host_up (?t4 @ retries ?p 0) ?p = Inl (OsError ''connection refused'')"
    by code_simp
  have a1: "connect host_up (?t4 @ retries ?p 1) ?p = Inl (OsError ''connection refused'')"
    by code_simp
  have a2: "connect host_up (?t4 @ retries ?p 2) ?p = Inr (Conn ?p)"
    by code_simp
  have a: "\<forall>j<2. connect host_up (?t4 @ retries ?p j) ?p = Inl (?e j)"
    using a0 a1 by (auto simp: less_Suc_eq numeral_2_eq_2)
  note up = LaunchVM_connection_retries [OF u1 u2 u3 u4, where errs = ?e and k = 2
      and cn = "Conn ?p", THEN conjunct2]
  show ?thesis
    using down d1 d5 up u1 a a2 by simp
qed

section \<open>Facts about the launcher\<close>

lemma vmExists_loop_iff: "vmExists_loop vms vmName = (vmName \<in> set vms)"
  by (induction vms) auto

lemma vmList_snd: "snd (vmList w tr) = tr @ [Output ''VBoxManage'' [''list'', ''vms'']]"
  by (simp add: vmList_def split: exec_outcome.splits)

lemma DeleteVM_snd: "snd (DeleteVM w c tr) = tr @ [delete_event c]"
  by (simp add: DeleteVM_def delete_event_def VBoxManage_snd)

lemma delete_not_provisioning: "[''unregistervm'', n, ''--delete''] \<notin> set (provision_cmds w c)"
  by (auto simp: provision_cmds_def)

lemma vmCreate_snd:
  "snd (vmCreate w c tr) =
     tr @ map (Run ''VBoxManage'') (take (issued w c tr) (provision_cmds w c))"
proof -
  obtain k where k: "k \<le> length (provision_cmds w c)"
    "snd (run_steps w (provision_cmds w c) tr) =
       tr @ map (Run ''VBoxManage'') (take k (provision_cmds w c))"
    using run_steps_shape [of "provision_cmds w c" w tr] by (elim exE conjE) (rule that)
  have "issued w c tr = k"
    unfolding issued_def vmCreate_run_steps using k by simp
  then show ?thesis
    using k(2) by (simp add: vmCreate_run_steps)
qed

lemma vmCreate_all_issued:
  assumes "fst (vmCreate w c tr) = None"
  shows "snd (vmCreate w c tr) = tr @ map (Run ''VBoxManage'') (provision_cmds w c)"
proof -
  obtain k where k: "k \<le> length (provision_cmds w c)"
    "snd (run_steps w (provision_cmds w c) tr) =
       tr @ map (Run ''VBoxManage'') (take k (provision_cmds w c))"
    "fst (run_steps w (provision_cmds w c) tr) = None \<longrightarrow>
       k = length (provision_cmds w c)
       \<and> (\<forall>i<k. step_result w (provision_cmds w c) tr i = None)"
    using run_steps_shape [of "provision_cmds w c" w tr] by (elim exE conjE) (rule that)
  then show ?thesis
    using assms by (simp add: vmCreate_run_steps)
qed

lemma LaunchVM_from_create:
  assumes "vmExists w (Name c) tr = (Inr ex, tr1)"
    and "(if ex then DeleteVM w c tr1 else (None, tr1)) = (None, tr2)"
  shows "\<exists>rest. snd (LaunchVM w c tr) = snd (vmCreate w c tr2) @ rest
           \<and> (\<forall>ev\<in>set rest. \<not> is_Run ev)
           \<and> (\<forall>p. Connect p \<in> set rest \<longrightarrow> p = sockPath w c \<and> fst (vmCreate w c tr2) = None)"
proof -
  obtain r3 tr3 where create: "vmCreate w c tr2 = (r3, tr3)"
    by (cases "vmCreate w c tr2")
  let ?s = "Start ''VBoxHeadless'' [''--startvm'', Name c]"
  let ?tr4 = "tr3 @ [?s]"
  let ?h = "\<lparr>Path = look_path w ''VBoxHeadless'',
             Args = [''VBoxHeadless'', ''--startvm'', Name c]\<rparr>"
  show ?thesis
  proof (cases r3)
    case (Some err)
    then have "LaunchVM w c tr = (Inl err, tr3)"
      using assms create by (simp add: LaunchVM_def)
    then show ?thesis
      using create by (intro exI [of _ "[]"]) simp
  next
    case None
    show ?thesis
    proof (cases "start w tr3 ''VBoxHeadless'' [''--startvm'', Name c]")
      case (Some err)
      then have "LaunchVM w c tr = (Inl err, ?tr4)"
        using assms create None by (simp add: LaunchVM_def VBoxHeadless_def)
      then show ?thesis
        using create by (intro exI [of _ "[?s]"]) simp
    next
      case started: None
      obtain evs where evs: "snd (connect_loop w c 0 (None, None) ?tr4) = ?tr4 @ evs"
        "\<forall>ev\<in>set evs. ev = Connect (sockPath w c) \<or> ev = Sleep 500"
        using connect_loop_events [of w c 0 "(None, None)" ?tr4] by (elim exE conjE) (rule that)
      obtain cn er tr5 where loop: "connect_loop w c 0 (None, None) ?tr4 = ((cn, er), tr5)"
        by (metis prod.exhaust)
      have tr5: "tr5 = ?tr4 @ evs"
        using evs(1) loop by simp
      show ?thesis
      proof (cases er)
        case (Some err)
        then have "LaunchVM w c tr = (Inl err, tr5)"
          using assms create None started loop by (simp add: LaunchVM_def VBoxHeadless_def)
        then show ?thesis
          using evs(2) None create tr5 by (intro exI [of _ "[?s] @ evs"]) auto
      next
        case connected: None
        then have "LaunchVM w c tr =
            (Inr ?h, tr5 @ [GoCopy StdinToConn cn, GoCopy ConnToStdout cn])"
          using assms create None started loop by (simp add: LaunchVM_def VBoxHeadless_def)
        then show ?thesis
          using evs(2) None create tr5
          by (intro exI [of _ "[?s] @ evs @ [GoCopy StdinToConn cn, GoCopy ConnToStdout cn]"])
             auto
      qed
    qed
  qed
qed


lemma vmExists_of_vmList:
  assumes "vmList w tr = (Inr vms, tr1)"
  shows "vmExists w vmName tr = (Inr (vmName \<in> set vms), tr1)"
  using assms by (simp add: vmExists_def vmExists_loop_iff)

lemma no_Run_filter: "(\<forall>ev\<in>set rest. \<not> is_Run ev) \<Longrightarrow> filter is_Run rest = []"
  by (simp add: filter_empty_conv)

lemma delete_not_issued:
  "delete_event c \<notin> set (map (Run ''VBoxManage'') (take k (provision_cmds w c)))"
proof
  assume "delete_event c \<in> set (map (Run ''VBoxManage'') (take k (provision_cmds w c)))"
  then have "[''unregistervm'', Name c, ''--delete''] \<in> set (take k (provision_cmds w c))"
    by (auto simp: delete_event_def)
  then have "[''unregistervm'', Name c, ''--delete''] \<in> set (provision_cmds w c)"
    by (rule in_set_takeD)
  then show False
    using delete_not_provisioning by blast
qed

section \<open>Deletion of a stale VM\<close>

text \<open>Claim C3. Let the inventory listing succeed with the names \<open>vms\<close>. When the name of
  the configuration is absent from it, the management commands of \<open>LaunchVM\<close> are those of
  one provisioning run (a prefix of the documented sequence) and the deletion command is
  never issued. When the name is present, \<open>LaunchVM\<close> issues the deletion command
  (unregister with file deletion) right after the listing and before any provisioning
  command; when the deletion fails, \<open>LaunchVM\<close> returns its error and issues nothing
  more.\<close>

theorem LaunchVM_deletes_stale_VM_first:
  assumes "vmList w tr = (Inr vms, tr1)"
  shows "tr1 = tr @ [Output ''VBoxManage'' [''list'', ''vms'']]
       \<and> (Name c \<notin> set vms \<longrightarrow>
           (\<exists>rest. snd (LaunchVM w c tr) =
                     tr1 @ map (Run ''VBoxManage'')
                             (take (issued w c tr1) (provision_cmds w c)) @ rest
                   \<and> filter is_Run rest = [])
           \<and> delete_event c \<notin> set (drop (length tr) (snd (LaunchVM w c tr))))
       \<and> (Name c \<in> set vms \<longrightarrow>
           snd (DeleteVM w c tr1) = tr1 @ [delete_event c]
           \<and> (\<forall>err. fst (DeleteVM w c tr1) = Some err \<longrightarrow>
                 LaunchVM w c tr = (Inl err, tr1 @ [delete_event c]))
           \<and> (fst (DeleteVM w c tr1) = None \<longrightarrow>
                 (\<exists>rest. snd (LaunchVM w c tr) =
                     tr1 @ [delete_event c]
                     @ map (Run ''VBoxManage'')
                         (take (issued w c (tr1 @ [delete_event c])) (provision_cmds w c))
                     @ rest
                   \<and> filter is_Run rest = [])))"
proof (intro conjI impI allI)
  show tr1: "tr1 = tr @ [Output ''VBoxManage'' [''list'', ''vms'']]"
    using assms vmList_snd [of w tr] by simp
  {
    assume absent: "Name c \<notin> set vms"
    have ex: "vmExists w (Name c) tr = (Inr False, tr1)"
      using vmExists_of_vmList [OF assms, of "Name c"] absent by simp
    have d0: "(if False then DeleteVM w c tr1 else (None, tr1)) = (None, tr1)"
      by simp
    obtain rest where rest: "snd (LaunchVM w c tr) = snd (vmCreate w c tr1) @ rest"
      "\<forall>ev\<in>set rest. \<not> is_Run ev"
      using LaunchVM_from_create [OF ex d0] by (elim exE conjE) simp
    have shape: "snd (LaunchVM w c tr) =
        tr1 @ map (Run ''VBoxManage'') (take (issued w c tr1) (provision_cmds w c)) @ rest"
      using rest(1) by (simp add: vmCreate_snd)
    show "\<exists>rest. snd (LaunchVM w c tr) =
                     tr1 @ map (Run ''VBoxManage'')
                             (take (issued w c tr1) (provision_cmds w c)) @ rest
                   \<and> filter is_Run rest = []"
      using shape no_Run_filter [OF rest(2)] by blast
    have "delete_event c \<notin> set rest"
      using rest(2) by (auto simp: delete_event_def)
    then show "delete_event c \<notin> set (drop (length tr) (snd (LaunchVM w c tr)))"
      using delete_not_issued [of c "issued w c tr1" w]
      unfolding shape tr1 by (simp add: delete_event_def)
  }
  show del: "snd (DeleteVM w c tr1) = tr1 @ [delete_event c]"
    by (rule DeleteVM_snd)
  {
    fix err
    assume present: "Name c \<in> set vms" and fails: "fst (DeleteVM w c tr1) = Some err"
    have ex: "vmExists w (Name c) tr = (Inr True, tr1)"
      using vmExists_of_vmList [OF assms, of "Name c"] present by simp
    have "DeleteVM w c tr1 = (Some err, tr1 @ [delete_event c])"
      using fails del by (metis prod.collapse)
    then show "LaunchVM w c tr = (Inl err, tr1 @ [delete_event c])"
      using ex by (simp add: LaunchVM_def)
  }
  {
    assume present: "Name c \<in> set vms" and ok: "fst (DeleteVM w c tr1) = None"
    have ex: "vmExists w (Name c) tr = (Inr True, tr1)"
      using vmExists_of_vmList [OF assms, of "Name c"] present by simp
    have "DeleteVM w c tr1 = (None, tr1 @ [delete_event c])"
      using ok del by (metis prod.collapse)
    then have d: "(if True then DeleteVM w c tr1 else (None, tr1)) = (None, tr1 @ [delete_event c])"
      by simp
    obtain rest where rest:
      "snd (LaunchVM w c tr) = snd (vmCreate w c (tr1 @ [delete_event c])) @ rest"
      "\<forall>ev\<in>set rest. \<not> is_Run ev"
      using LaunchVM_from_create [OF ex d] by (elim exE conjE) simp
    have "snd (LaunchVM w c tr) =
        tr1 @ [delete_event c]
        @ map (Run ''VBoxManage'')
            (take (issued w c (tr1 @ [delete_event c])) (provision_cmds w c))
        @ rest"
      using rest(1) by (simp add: vmCreate_snd)
    then show "\<exists>rest. snd (LaunchVM w c tr) =
                     tr1 @ [delete_event c]
                     @ map (Run ''VBoxManage'')
                         (take (issued w c (tr1 @ [delete_event c])) (provision_cmds w c))
                     @ rest
                   \<and> filter is_Run rest = []"
      using no_Run_filter [OF rest(2)] by blast
  }
qed


theorem LaunchVM_deletes_stale_VM_first_witness:
  "vmList host_up [] = (Inr [''vm1''], [Output ''VBoxManage'' [''list'', ''vms'']])
   \<and> Name cfg_vm \<notin> set [''vm1'']
   \<and> delete_event cfg_vm \<notin> set (snd (LaunchVM host_up cfg_vm []))
   \<and> Name cfg \<in> set [''vm1'']
   \<and> snd (DeleteVM host_up cfg [Output ''VBoxManage'' [''list'', ''vms'']]) =
       [Output ''VBoxManage'' [''list'', ''vms''], delete_event cfg]
   \<and> filter is_Run (snd (LaunchVM host_up cfg [])) =
       delete_event cfg # map (Run ''VBoxManage'') (provision_cmds host_up cfg)"
proof -
  have l: "vmList host_up [] = (Inr [''vm1''], [Output ''VBoxManage'' [''list'', ''vms'']])"
    by code_simp
  have a: "Name cfg_vm \<notin> set [''vm1'']"
    by (simp add: cfg_vm_def cfg_def)
  have p: "Name cfg \<in> set [''vm1'']"
    by (simp add: cfg_def)
  have r: "filter is_Run (snd (LaunchVM host_up cfg [])) =
       delete_event cfg # map (Run ''VBoxManage'') (provision_cmds host_up cfg)"
    by code_simp
  have "delete_event cfg_vm
          \<notin> set (drop (length ([] :: trace)) (snd (LaunchVM host_up cfg_vm [])))"
    by (rule LaunchVM_deletes_stale_VM_first [OF l, of cfg_vm, THEN conjunct2, THEN conjunct1,
          THEN mp, OF a, THEN conjunct2])
  moreover have "snd (DeleteVM host_up cfg [Output ''VBoxManage'' [''list'', ''vms'']]) =
       [Output ''VBoxManage'' [''list'', ''vms'']] @ [delete_event cfg]"
    by (rule LaunchVM_deletes_stale_VM_first [OF l, of cfg, THEN conjunct2, THEN conjunct2,
          THEN mp, OF p, THEN conjunct1])
  ultimately show ?thesis
    using l a p r by simp
qed

text \<open>Claim C10. \<open>vmExists\<close> answers true exactly when the parsed inventory holds a string
  equal to the name. A listed name that merely contains the target name does not count: when
  no listed name equals the name of the configuration, \<open>LaunchVM\<close> does not issue the
  deletion command.\<close>

theorem vmExists_exact_match:
  assumes "vmList w tr = (Inr vms, tr1)"
  shows "vmExists w vmName tr = (Inr (vmName \<in> set vms), tr1)
       \<and> (Name c \<notin> set vms \<longrightarrow>
            delete_event c \<notin> set (drop (length tr) (snd (LaunchVM w c tr))))"
proof (intro conjI impI)
  show "vmExists w vmName tr = (Inr (vmName \<in> set vms), tr1)"
    by (rule vmExists_of_vmList [OF assms])
next
  assume absent: "Name c \<notin> set vms"
  have tr1: "tr1 = tr @ [Output ''VBoxManage'' [''list'', ''vms'']]"
    using assms vmList_snd [of w tr] by simp
  have ex: "vmExists w (Name c) tr = (Inr False, tr1)"
    using vmExists_of_vmList [OF assms, of "Name c"] absent by simp
  have d0: "(if False then DeleteVM w c tr1 else (None, tr1)) = (None, tr1)"
    by simp
  obtain rest where rest: "snd (LaunchVM w c tr) = snd (vmCreate w c tr1) @ rest"
    "\<forall>ev\<in>set rest. \<not> is_Run ev"
    using LaunchVM_from_create [OF ex d0] by (elim exE conjE) simp
  have shape: "snd (LaunchVM w c tr) =
      tr1 @ map (Run ''VBoxManage'') (take (issued w c tr1) (provision_cmds w c)) @ rest"
    using rest(1) by (simp add: vmCreate_snd)
  have "delete_event c \<notin> set rest"
    using rest(2) by (auto simp: delete_event_def)
  then show "delete_event c \<notin> set (drop (length tr) (snd (LaunchVM w c tr)))"
    using delete_not_issued [of c "issued w c tr1" w]
    unfolding shape tr1 by (simp add: delete_event_def)
qed

theorem vmExists_exact_match_witness:
  "vmList host_up [] = (Inr [''vm1''], [Output ''VBoxManage'' [''list'', ''vms'']])
   \<and> Name cfg_vm = ''vm''
   \<and> vmExists host_up ''vm'' [] = (Inr False, [Output ''VBoxManage'' [''list'', ''vms'']])
   \<and> vmExists host_up ''vm1'' [] = (Inr True, [Output ''VBoxManage'' [''list'', ''vms'']])
   \<and> delete_event cfg_vm \<notin> set (snd (LaunchVM host_up cfg_vm []))"
proof -
  have l: "vmList host_up [] = (Inr [''vm1''], [Output ''VBoxManage'' [''list'', ''vms'']])"
    by code_simp
  have n: "Name cfg_vm = ''vm''"
    by (simp add: cfg_vm_def)
  show ?thesis
    using vmExists_exact_match [OF l, of "''vm''" cfg_vm]
      vmExists_exact_match [OF l, of "''vm1''" cfg_vm] l n
    by simp
qed

section \<open>The failure path of the connection\<close>

text \<open>Claim C8. When the headless process was started and every connection attempt fails,
  \<open>LaunchVM\<close> returns an error, and everything it does after starting the process is to
  try the connection and to sleep: it issues no further management command and does nothing
  to the process it started (no step of the package terminates or signals a process).\<close>

theorem LaunchVM_connect_failure_leaves_VM:
  assumes "vmExists w (Name c) tr = (Inr ex, tr1)"
    and "(if ex then DeleteVM w c tr1 else (None, tr1)) = (None, tr2)"
    and "vmCreate w c tr2 = (None, tr3)"
    and "start w tr3 ''VBoxHeadless'' [''--startvm'', Name c] = None"
    and "\<forall>j<5. connect w
            ((tr3 @ [Start ''VBoxHeadless'' [''--startvm'', Name c]]) @ retries (sockPath w c) j)
            (sockPath w c) = Inl (errs j)"
  shows "LaunchVM w c tr =
           (Inl (errs 4),
            (tr3 @ [Start ''VBoxHeadless'' [''--startvm'', Name c]]) @ retries (sockPath w c) 5)
       \<and> (\<forall>ev\<in>set (drop (Suc (length tr3)) (snd (LaunchVM w c tr))).
             ev = Connect (sockPath w c) \<or> ev = Sleep 500)
       \<and> filter is_Run (drop (Suc (length tr3)) (snd (LaunchVM w c tr))) = []"
proof -
  let ?p = "sockPath w c"
  let ?tr4 = "tr3 @ [Start ''VBoxHeadless'' [''--startvm'', Name c]]"
  have "connect_loop w c 0 (None, None) ?tr4 = ((None, Some (errs (5 - 1))), ?tr4 @ retries ?p 5)"
    using assms(5) by (intro connect_loop_fails) simp_all
  then have launch: "LaunchVM w c tr = (Inl (errs 4), ?tr4 @ retries ?p 5)"
    using assms(1-4) by (simp add: LaunchVM_def VBoxHeadless_def)
  have after: "drop (Suc (length tr3)) (snd (LaunchVM w c tr)) = retries ?p 5"
    unfolding launch by simp
  have only: "\<forall>ev\<in>set (retries ?p n). ev = Connect ?p \<or> ev = Sleep 500" for n
    by (induction n) (auto simp: retries_def)
  have "filter is_Run (retries ?p 5) = []"
    using only [of 5] by (auto simp: filter_empty_conv)
  then show ?thesis
    using launch after only [of 5] by simp
qed

theorem LaunchVM_connect_failure_leaves_VM_witness:
  "vmExists host_down (Name cfg) [] = (Inr True, [Output ''VBoxManage'' [''list'', ''vms'']])
   \<and> fst (LaunchVM host_down cfg []) = Inl (OsError ''connection refused'')
   \<and> drop (Suc (length (snd (vmCreate host_down cfg
              (snd (DeleteVM host_down cfg [Output ''VBoxManage'' [''list'', ''vms'']]))))))
        (snd (LaunchVM host_down cfg [])) = retries (sockPath host_down cfg) 5
   \<and> filter is_Run (drop (Suc (length (snd (vmCreate host_down cfg
              (snd (DeleteVM host_down cfg [Output ''VBoxManage'' [''list'', ''vms'']]))))))
        (snd (LaunchVM host_down cfg []))) = []"
proof -
  let ?t1 = "[Output ''VBoxManage'' [''list'', ''vms'']]"
  let ?t3 = "snd (vmCreate host_down cfg (snd (DeleteVM host_down cfg ?t1)))"
  let ?e = "\<lambda>j::nat. OsError ''connection refused''"
  have d1: "vmExists host_down (Name cfg) [] = (Inr True, ?t1)"
    by code_simp
  have d2: "(if True then DeleteVM host_down cfg ?t1 else (None, ?t1)) =
      (None, snd (DeleteVM host_down cfg ?t1))"
    by code_simp
  have d3: "vmCreate host_down cfg (snd (DeleteVM host_down cfg ?t1)) = (None, ?t3)"
    by code_simp
  have d4: "start host_down ?t3 ''VBoxHeadless'' [''--startvm'', Name cfg] = None"
    by (simp add: host_down_def)
  have d5: "\<forall>j<5. connect host_down
      ((?t3 @ [Start ''VBoxHeadless'' [''--startvm'', Name cfg]])
        @ retries (sockPath host_down cfg) j)
      (sockPath host_down cfg) = Inl (?e j)"
    by (simp add: host_down_def)
  note t = LaunchVM_connect_failure_leaves_VM [OF d1 d2 d3 d4 d5]
  have l: "LaunchVM host_down cfg [] =
      (Inl (OsError ''connection refused''),
       (?t3 @ [Start ''VBoxHeadless'' [''--startvm'', Name cfg]])
       @ retries (sockPath host_down cfg) 5)"
    by (rule t [THEN conjunct1])
  have f: "filter is_Run (drop (Suc (length ?t3)) (snd (LaunchVM host_down cfg []))) = []"
    by (rule t [THEN conjunct2, THEN conjunct2])
  have a: "fst (LaunchVM host_down cfg []) = Inl (OsError ''connection refused'')"
    unfolding l by simp
  have r: "drop (Suc (length ?t3)) (snd (LaunchVM host_down cfg [])) =
      retries (sockPath host_down cfg) 5"
    unfolding l by simp
  show ?thesis
    by (intro conjI d1 a r f)
qed

section \<open>The console socket path\<close>

lemma uart_provisioned:
  "[''modifyvm'', Name c, ''--uart1'', ''0x3f8'', ''4'', ''--uartmode1'', ''server'', sockPath w c]
     \<in> set (provision_cmds w c)"
  by (simp add: provision_cmds_def)

lemma prefix_before_first:
  "xs @ ys = before @ ev # after \<Longrightarrow> ev \<notin> set xs \<Longrightarrow> \<exists>mid. before = xs @ mid"
  by (auto simp: append_eq_append_conv2 append_eq_Cons_conv)

lemma LaunchVM_connects_after_uart:
  assumes "drop (length tr) (snd (LaunchVM w c tr)) = before @ Connect p # after"
  shows "p = sockPath w c
       \<and> Run ''VBoxManage'' [''modifyvm'', Name c, ''--uart1'', ''0x3f8'', ''4'',
            ''--uartmode1'', ''server'', p] \<in> set before"
proof -
  let ?o = "Output ''VBoxManage'' [''list'', ''vms'']"
  have mem: "Connect p \<in> set (drop (length tr) (snd (LaunchVM w c tr)))"
    unfolding assms by simp
  obtain r1 tr1 where list: "vmList w tr = (r1, tr1)"
    by (cases "vmList w tr")
  have tr1: "tr1 = tr @ [?o]"
    using list vmList_snd [of w tr] by simp
  show ?thesis
  proof (cases r1)
    case (Inl err)
    then have "LaunchVM w c tr = (Inl err, tr1)"
      using list by (simp add: LaunchVM_def vmExists_def)
    then show ?thesis
      using mem tr1 by simp
  next
    case (Inr vms)
    let ?ex = "Name c \<in> set vms"
    have ex: "vmExists w (Name c) tr = (Inr ?ex, tr1)"
      using vmExists_of_vmList [of w tr vms tr1 "Name c"] list Inr by simp
    obtain r2 tr2 where del: "(if ?ex then DeleteVM w c tr1 else (None, tr1)) = (r2, tr2)"
      by (cases "if ?ex then DeleteVM w c tr1 else (None, tr1)")
    have tr2: "tr2 = tr1 \<or> tr2 = tr1 @ [delete_event c]"
      using del DeleteVM_snd [of w c tr1] by (auto split: if_splits)
    show ?thesis
    proof (cases r2)
      case (Some err)
      then have "LaunchVM w c tr = (Inl err, tr2)"
        using ex del by (simp add: LaunchVM_def)
      then show ?thesis
        using mem tr1 tr2 by (auto simp: delete_event_def)
    next
      case None
      then have del': "(if ?ex then DeleteVM w c tr1 else (None, tr1)) = (None, tr2)"
        using del by simp
      obtain rest where rest: "snd (LaunchVM w c tr) = snd (vmCreate w c tr2) @ rest"
        "\<forall>p. Connect p \<in> set rest \<longrightarrow> p = sockPath w c \<and> fst (vmCreate w c tr2) = None"
        using LaunchVM_from_create [OF ex del'] by (elim exE conjE) simp
      obtain pre where pre: "tr2 = tr @ pre" "\<forall>ev\<in>set pre. \<not> is_Connect ev"
        using tr1 tr2 by (auto simp: delete_event_def)
      let ?k = "issued w c tr2"
      let ?m = "map (Run ''VBoxManage'') (take ?k (provision_cmds w c))"
      have new: "drop (length tr) (snd (LaunchVM w c tr)) = (pre @ ?m) @ rest"
        using rest(1) pre(1) by (simp add: vmCreate_snd)
      have early: "Connect p \<notin> set (pre @ ?m)"
        using pre(2) by auto
      then have "Connect p \<in> set rest"
        using mem unfolding new by auto
      then have p: "p = sockPath w c" and ok: "fst (vmCreate w c tr2) = None"
        using rest(2) by auto
      have "(pre @ ?m) @ rest = before @ Connect p # after"
        using new assms by simp
      then obtain mid where mid: "before = (pre @ ?m) @ mid"
        using prefix_before_first [OF _ early] by blast
      have "snd (vmCreate w c tr2) = tr2 @ map (Run ''VBoxManage'') (provision_cmds w c)"
        by (rule vmCreate_all_issued [OF ok])
      then have "?m = map (Run ''VBoxManage'') (provision_cmds w c)"
        using vmCreate_snd [of w c tr2] by simp
      then have "Run ''VBoxManage'' [''modifyvm'', Name c, ''--uart1'', ''0x3f8'', ''4'',
            ''--uartmode1'', ''server'', sockPath w c] \<in> set ?m"
        using uart_provisioned [of c w] by simp
      then show ?thesis
        using p mid by simp
    qed
  qed
qed

lemma strings_Split_no_sep: "sep \<notin> set xs \<Longrightarrow> strings_Split xs sep = [xs]"
  by (induction xs) auto

lemma strings_Split_field:
  "sep \<notin> set xs \<Longrightarrow> strings_Split (xs @ sep # ys) sep = xs # strings_Split ys sep"
  by (induction xs) auto

lemma strings_Split_ne: "strings_Split s sep \<noteq> []"
  by (induction s) (auto split: list.splits)

lemma strings_Join_Split: "strings_Join (strings_Split s sep) [sep] = s"
proof (induction s)
  case Nil
  show ?case by simp
next
  case (Cons ch s)
  obtain l ls where sp: "strings_Split s sep = l # ls"
    using strings_Split_ne [of s sep] by (cases "strings_Split s sep") auto
  show ?case
    using Cons sp by (cases ls) auto
qed

lemma strings_Join_snoc2:
  "xs \<noteq> [] \<Longrightarrow> strings_Join (xs @ [a, b]) sep = strings_Join xs sep @ sep @ a @ sep @ b"
  by (induction xs sep rule: strings_Join.induct) auto

lemma strings_Split_Join:
  "xs \<noteq> [] \<Longrightarrow> list_all plain_elem xs \<Longrightarrow> strings_Split (strings_Join xs ''/'') CHR ''/'' = xs"
proof (induction xs "''/''" rule: strings_Join.induct)
  case 1
  then show ?case by simp
next
  case (2 x)
  then show ?case by (simp add: plain_elem_def strings_Split_no_sep)
next
  case (3 x y ys)
  then have "CHR ''/'' \<notin> set x" by (simp add: plain_elem_def)
  then have "strings_Split (x @ CHR ''/'' # strings_Join (y # ys) ''/'') CHR ''/'' =
      x # strings_Split (strings_Join (y # ys) ''/'') CHR ''/''"
    by (rule strings_Split_field)
  then show ?case using 3 by simp
qed

lemma foldl_clean_step_plain:
  "list_all plain_elem xs \<Longrightarrow> foldl (clean_step rooted) st xs = st @ xs"
  by (induction xs arbitrary: st) (auto simp: clean_step_def plain_elem_def)

lemma hd_strings_Join:
  "xs \<noteq> [] \<Longrightarrow> list_all plain_elem xs \<Longrightarrow>
     strings_Join xs ''/'' \<noteq> [] \<and> hd (strings_Join xs ''/'') \<noteq> CHR ''/''"
  by (induction xs "''/''" rule: strings_Join.induct)
     (auto simp: plain_elem_def dest: hd_in_set)

lemma unix_Clean_relative:
  assumes "xs \<noteq> []" and "list_all plain_elem xs"
  shows "unix_Clean (strings_Join xs ''/'') = strings_Join xs ''/''"
  using assms hd_strings_Join [OF assms]
  by (simp add: unix_Clean_def strings_Split_Join foldl_clean_step_plain)

lemma unix_Clean_rooted:
  assumes "xs \<noteq> []" and "list_all plain_elem xs"
  shows "unix_Clean (CHR ''/'' # strings_Join xs ''/'') = CHR ''/'' # strings_Join xs ''/''"
  using assms
  by (simp add: unix_Clean_def strings_Split_Join foldl_clean_step_plain clean_step_def)

lemma plain_sock: "plain_elem n \<Longrightarrow> plain_elem (n @ ''.sock'')"
  by (auto simp: plain_elem_def append_eq_Cons_conv)

lemma unix_Clean_plain:
  assumes "plain_dir d" and "plain_elem n"
  shows "unix_Clean (d @ ''/'' @ n @ ''/'' @ n @ ''.sock'') = d @ ''/'' @ n @ ''/'' @ n @ ''.sock''"
proof -
  let ?r = "if hd d = CHR ''/'' then tl d else d"
  let ?xs = "strings_Split ?r CHR ''/''"
  have xs: "list_all plain_elem ?xs" and d: "d \<noteq> []"
    using assms(1) by (simp_all add: plain_dir_def)
  have ne: "?xs \<noteq> []"
    by (rule strings_Split_ne)
  have r: "strings_Join ?xs ''/'' = ?r"
    by (rule strings_Join_Split)
  let ?ys = "?xs @ [n, n @ ''.sock'']"
  have ys: "list_all plain_elem ?ys" "?ys \<noteq> []"
    using xs assms(2) plain_sock by simp_all
  have j: "strings_Join ?ys ''/'' = ?r @ ''/'' @ n @ ''/'' @ n @ ''.sock''"
    using strings_Join_snoc2 [OF ne, of n "n @ ''.sock''" "''/''"] r by simp
  show ?thesis
  proof (cases "hd d = CHR ''/''")
    case True
    then have "d = CHR ''/'' # ?r"
      using d by (cases d) auto
    then have "d @ ''/'' @ n @ ''/'' @ n @ ''.sock'' = CHR ''/'' # strings_Join ?ys ''/''"
      using j by simp
    then show ?thesis
      using unix_Clean_rooted [OF ys(2) ys(1)] by simp
  next
    case False
    then have "d @ ''/'' @ n @ ''/'' @ n @ ''.sock'' = strings_Join ?ys ''/''"
      using j by simp
    then show ?thesis
      using unix_Clean_relative [OF ys(2) ys(1)] by simp
  qed
qed

text \<open>Claim C6, amended. The console socket path is the pipe prefix (two backslashes, a dot,
  a backslash, \<open>pipe\<close>, a backslash) followed by the name on Windows. On other platforms
  it is \<open>filepath.Join\<close> of the directory, the name and the name with \<open>.sock\<close> appended:
  with the Unix \<open>filepath.Join\<close> and a directory that is not empty, this is the cleaned form
  of the string \<open>directory/name/name.sock\<close>, and it is that very string exactly when the
  string is already clean; it is so whenever the directory is plain (plain elements
  separated by single slashes, absolute or relative) and the name is a plain element.
  Every path \<open>LaunchVM\<close> connects to is the console socket path,
  and is the very string that a serial-port command issued earlier in the same launch gave
  as the redirection target.\<close>

theorem sockPath_matches_serial_port:
  "(windows w \<longrightarrow>
      sockPath w c = [CHR 0x5C, CHR 0x5C, CHR ''.'', CHR 0x5C] @ ''pipe'' @ [CHR 0x5C] @ Name c)
   \<and> (\<not> windows w \<longrightarrow> sockPath w c = filepath_Join w [Dir c, Name c, Name c @ ''.sock''])
   \<and> (\<not> windows w \<and> filepath_Join w = unix_Join \<and> Dir c \<noteq> [] \<longrightarrow>
        sockPath w c = unix_Clean (Dir c @ ''/'' @ Name c @ ''/'' @ Name c @ ''.sock'')
        \<and> ((sockPath w c = Dir c @ ''/'' @ Name c @ ''/'' @ Name c @ ''.sock'') =
            (unix_Clean (Dir c @ ''/'' @ Name c @ ''/'' @ Name c @ ''.sock'') =
               Dir c @ ''/'' @ Name c @ ''/'' @ Name c @ ''.sock'')))
   \<and> (\<not> windows w \<and> filepath_Join w = unix_Join \<and> plain_dir (Dir c) \<and> plain_elem (Name c)
        \<longrightarrow> sockPath w c = Dir c @ ''/'' @ Name c @ ''/'' @ Name c @ ''.sock'')
   \<and> (\<forall>before p after.
         drop (length tr) (snd (LaunchVM w c tr)) = before @ Connect p # after \<longrightarrow>
         p = sockPath w c
         \<and> Run ''VBoxManage'' [''modifyvm'', Name c, ''--uart1'', ''0x3f8'', ''4'',
              ''--uartmode1'', ''server'', p] \<in> set before)"
proof (intro conjI impI allI)
  assume "windows w"
  then show "sockPath w c =
      [CHR 0x5C, CHR 0x5C, CHR ''.'', CHR 0x5C] @ ''pipe'' @ [CHR 0x5C] @ Name c"
    by (simp add: sockPath_def)
next
  assume "\<not> windows w"
  then show "sockPath w c = filepath_Join w [Dir c, Name c, Name c @ ''.sock'']"
    by (simp add: sockPath_def)
next
  assume a: "\<not> windows w \<and> filepath_Join w = unix_Join \<and> Dir c \<noteq> []"
  then obtain d ds where d: "Dir c = d # ds"
    by (cases "Dir c") auto
  show cl: "sockPath w c = unix_Clean (Dir c @ ''/'' @ Name c @ ''/'' @ Name c @ ''.sock'')"
    using a by (simp add: sockPath_def unix_Join_def d)
  show "(sockPath w c = Dir c @ ''/'' @ Name c @ ''/'' @ Name c @ ''.sock'') =
      (unix_Clean (Dir c @ ''/'' @ Name c @ ''/'' @ Name c @ ''.sock'') =
         Dir c @ ''/'' @ Name c @ ''/'' @ Name c @ ''.sock'')"
    by (simp only: cl)
next
  assume a: "\<not> windows w \<and> filepath_Join w = unix_Join \<and> plain_dir (Dir c)
      \<and> plain_elem (Name c)"
  then obtain d ds where d: "Dir c = d # ds"
    by (cases "Dir c") (auto simp: plain_dir_def)
  have "sockPath w c = unix_Clean (Dir c @ ''/'' @ Name c @ ''/'' @ Name c @ ''.sock'')"
    using a by (simp add: sockPath_def unix_Join_def d)
  then show "sockPath w c = Dir c @ ''/'' @ Name c @ ''/'' @ Name c @ ''.sock''"
    using a unix_Clean_plain [of "Dir c" "Name c"] by simp
next
  fix before p after
  assume "drop (length tr) (snd (LaunchVM w c tr)) = before @ Connect p # after"
  then show "p = sockPath w c"
    using LaunchVM_connects_after_uart by blast
next
  fix before p after
  assume "drop (length tr) (snd (LaunchVM w c tr)) = before @ Connect p # after"
  then show "Run ''VBoxManage'' [''modifyvm'', Name c, ''--uart1'', ''0x3f8'', ''4'',
              ''--uartmode1'', ''server'', p] \<in> set before"
    using LaunchVM_connects_after_uart by blast
qed

text \<open>The claim as stated gives the string \<open>directory/name/name.sock\<close> for every
  configuration. On a Unix host, the configuration with an empty directory and the name
  \<open>vm1\<close> has the console socket path \<open>vm1/vm1.sock\<close>, a relative path, and not
  \<open>/vm1/vm1.sock\<close>: \<open>filepath.Join\<close> ignores the empty element.\<close>

theorem sockPath_literal_counterexample:
  "\<not> windows host_up
   \<and> Dir cfg_nodir = [] \<and> Name cfg_nodir = ''vm1''
   \<and> Dir cfg_nodir @ ''/'' @ Name cfg_nodir @ ''/'' @ Name cfg_nodir @ ''.sock'' =
       ''/vm1/vm1.sock''
   \<and> sockPath host_up cfg_nodir = ''vm1/vm1.sock''
   \<and> sockPath host_up cfg_nodir \<noteq>
       Dir cfg_nodir @ ''/'' @ Name cfg_nodir @ ''/'' @ Name cfg_nodir @ ''.sock''"
  by code_simp

theorem sockPath_matches_serial_port_witness:
  "windows host_windows
   \<and> sockPath host_windows cfg =
       [CHR 0x5C, CHR 0x5C, CHR ''.'', CHR 0x5C] @ ''pipe'' @ [CHR 0x5C] @ ''vm1''
   \<and> \<not> windows host_up \<and> filepath_Join host_up = unix_Join \<and> Dir cfg \<noteq> []
   \<and> unix_Clean ''/var/capstan/vm1/vm1.sock'' = ''/var/capstan/vm1/vm1.sock''
   \<and> plain_dir (Dir cfg) \<and> plain_elem (Name cfg)
   \<and> sockPath host_up cfg = ''/var/capstan/vm1/vm1.sock''
   \<and> sockPath host_up cfg = Dir cfg @ ''/'' @ Name cfg @ ''/'' @ Name cfg @ ''.sock''
   \<and> snd (LaunchVM host_up cfg []) =
       take 14 (snd (LaunchVM host_up cfg [])) @ Connect ''/var/capstan/vm1/vm1.sock''
       # drop 15 (snd (LaunchVM host_up cfg []))
   \<and> Run ''VBoxManage'' [''modifyvm'', ''vm1'', ''--uart1'', ''0x3f8'', ''4'',
         ''--uartmode1'', ''server'', ''/var/capstan/vm1/vm1.sock'']
       \<in> set (take 14 (snd (LaunchVM host_up cfg [])))"
proof -
  have w: "windows host_windows"
    by (simp add: host_windows_def)
  have u: "\<not> windows host_up" "filepath_Join host_up = unix_Join" "Dir cfg \<noteq> []"
    by (simp_all add: host_up_def cfg_def)
  have u': "\<not> windows host_up \<and> filepath_Join host_up = unix_Join \<and> Dir cfg \<noteq> []"
    using u by simp
  have n: "Name cfg = ''vm1''" "Dir cfg = ''/var/capstan''"
    by (simp_all add: cfg_def)
  have cl: "unix_Clean ''/var/capstan/vm1/vm1.sock'' = ''/var/capstan/vm1/vm1.sock''"
    by code_simp
  have cn: "drop (length ([] :: trace)) (snd (LaunchVM host_up cfg [])) =
       take 14 (snd (LaunchVM host_up cfg [])) @ Connect ''/var/capstan/vm1/vm1.sock''
       # drop 15 (snd (LaunchVM host_up cfg []))"
    by code_simp
  note t = sockPath_matches_serial_port [of host_up cfg "[]"]
  note tw = sockPath_matches_serial_port [of host_windows cfg "[]"]
  have a: "sockPath host_windows cfg =
       [CHR 0x5C, CHR 0x5C, CHR ''.'', CHR 0x5C] @ ''pipe'' @ [CHR 0x5C] @ ''vm1''"
    using tw [THEN conjunct1] w n by simp
  have "sockPath host_up cfg =
      unix_Clean (Dir cfg @ ''/'' @ Name cfg @ ''/'' @ Name cfg @ ''.sock'')"
    by (rule t [THEN conjunct2, THEN conjunct2, THEN conjunct1, THEN mp, OF u', THEN conjunct1])
  then have b: "sockPath host_up cfg = ''/var/capstan/vm1/vm1.sock''"
    using n cl by simp
  have c: "Run ''VBoxManage'' [''modifyvm'', Name cfg, ''--uart1'', ''0x3f8'', ''4'',
         ''--uartmode1'', ''server'', ''/var/capstan/vm1/vm1.sock'']
       \<in> set (take 14 (snd (LaunchVM host_up cfg [])))"
    by (rule t [THEN conjunct2, THEN conjunct2, THEN conjunct2, THEN conjunct2,
          rule_format, OF cn, THEN conjunct2])
  have cn': "snd (LaunchVM host_up cfg []) =
       take 14 (snd (LaunchVM host_up cfg [])) @ Connect ''/var/capstan/vm1/vm1.sock''
       # drop 15 (snd (LaunchVM host_up cfg []))"
    using cn by simp
  have c': "Run ''VBoxManage'' [''modifyvm'', ''vm1'', ''--uart1'', ''0x3f8'', ''4'',
         ''--uartmode1'', ''server'', ''/var/capstan/vm1/vm1.sock'']
       \<in> set (take 14 (snd (LaunchVM host_up cfg [])))"
    using c n by simp
  have pl: "plain_dir (Dir cfg)" "plain_elem (Name cfg)"
    by code_simp+
  have pl': "\<not> windows host_up \<and> filepath_Join host_up = unix_Join \<and> plain_dir (Dir cfg)
      \<and> plain_elem (Name cfg)"
    using u pl by simp
  have e: "sockPath host_up cfg = Dir cfg @ ''/'' @ Name cfg @ ''/'' @ Name cfg @ ''.sock''"
    by (rule t [THEN conjunct2, THEN conjunct2, THEN conjunct2, THEN conjunct1, THEN mp,
          OF pl'])
  show ?thesis
    by (intro conjI w a u cl pl b e cn' c')
qed

section \<open>The results of the command executor\<close>

lemma strings_Join_contains:
  "a \<in> set args \<Longrightarrow> \<exists>pre post. strings_Join args sep = pre @ a @ post"
proof (induction args sep rule: strings_Join.induct)
  case (1 sep)
  then show ?case by simp
next
  case (2 x sep)
  then have "strings_Join [x] sep = [] @ a @ []" by simp
  then show ?case by blast
next
  case (3 x y ys sep)
  show ?case
  proof (cases "a = x")
    case True
    then have "strings_Join (x # y # ys) sep = [] @ a @ (sep @ strings_Join (y # ys) sep)"
      by simp
    then show ?thesis by blast
  next
    case False
    then have "a \<in> set (y # ys)" using 3 by simp
    then obtain pre post where "strings_Join (y # ys) sep = pre @ a @ post"
      using 3 by blast
    then have "strings_Join (x # y # ys) sep = (x @ sep @ pre) @ a @ post"
      by simp
    then show ?thesis by blast
  qed
qed

text \<open>Claim C7. For every argument vector: when the management program cannot be started,
  \<open>VBoxManage\<close> returns the start error as it is; when it starts and exits with a nonzero
  status, \<open>VBoxManage\<close> returns an error whose message is \<open>VBoxManage\<close> followed by the
  argument vector as Go prints it (the arguments in order, separated by spaces, in square
  brackets), so that every argument occurs in the message; when it exits with status zero,
  \<open>VBoxManage\<close> returns no error.\<close>

theorem VBoxManage_results:
  "(exec w tr ''VBoxManage'' args = StartFailed err \<longrightarrow>
      VBoxManage w args tr = (Some err, tr @ [Run ''VBoxManage'' args]))
   \<and> (exec w tr ''VBoxManage'' args = Exited status out \<and> status \<noteq> 0 \<longrightarrow>
        VBoxManage w args tr =
          (Some (Errorf (''VBoxManage ['' @ strings_Join args '' '' @ '']'')),
           tr @ [Run ''VBoxManage'' args])
        \<and> (\<forall>a\<in>set args. \<exists>pre post.
              ''VBoxManage ['' @ strings_Join args '' '' @ '']'' = pre @ a @ post))
   \<and> (exec w tr ''VBoxManage'' args = Exited 0 out \<longrightarrow>
        VBoxManage w args tr = (None, tr @ [Run ''VBoxManage'' args]))"
proof (intro conjI impI ballI)
  assume "exec w tr ''VBoxManage'' args = StartFailed err"
  then show "VBoxManage w args tr = (Some err, tr @ [Run ''VBoxManage'' args])"
    by (simp add: VBoxManage_def)
next
  assume "exec w tr ''VBoxManage'' args = Exited status out \<and> status \<noteq> 0"
  then show "VBoxManage w args tr =
          (Some (Errorf (''VBoxManage ['' @ strings_Join args '' '' @ '']'')),
           tr @ [Run ''VBoxManage'' args])"
    by (simp add: VBoxManage_def Sprint_strings_def)
next
  fix a assume "a \<in> set args"
  then obtain pre post where "strings_Join args '' '' = pre @ a @ post"
    using strings_Join_contains by blast
  then have "''VBoxManage ['' @ strings_Join args '' '' @ '']'' =
      (''VBoxManage ['' @ pre) @ a @ (post @ '']'')"
    by simp
  then show "\<exists>pre post. ''VBoxManage ['' @ strings_Join args '' '' @ '']'' = pre @ a @ post"
    by blast
next
  assume "exec w tr ''VBoxManage'' args = Exited 0 out"
  then show "VBoxManage w args tr = (None, tr @ [Run ''VBoxManage'' args])"
    by (simp add: VBoxManage_def)
qed

theorem VBoxManage_results_witness:
  "exec host_missing [] ''VBoxManage'' [''list'', ''vms''] =
     StartFailed (OsError ''executable file not found in $PATH'')
   \<and> fst (VBoxManage host_missing [''list'', ''vms''] []) =
       Some (OsError ''executable file not found in $PATH'')
   \<and> exec host_nat_fails [] ''VBoxManage'' [''modifyvm'', ''vm1'', ''--natpf1'', ''r''] =
       Exited 1 []
   \<and> fst (VBoxManage host_nat_fails [''modifyvm'', ''vm1'', ''--natpf1'', ''r''] []) =
       Some (Errorf ''VBoxManage [modifyvm vm1 --natpf1 r]'')
   \<and> exec host_up [] ''VBoxManage'' [''controlvm'', ''vm1'', ''poweroff''] = Exited 0 []
   \<and> fst (VBoxManage host_up [''controlvm'', ''vm1'', ''poweroff''] []) = None"
proof -
  have m: "exec host_missing [] ''VBoxManage'' [''list'', ''vms''] =
     StartFailed (OsError ''executable file not found in $PATH'')"
    by (simp add: host_missing_def)
  have n: "exec host_nat_fails [] ''VBoxManage'' [''modifyvm'', ''vm1'', ''--natpf1'', ''r''] =
       Exited 1 [] \<and> (1::int) \<noteq> 0"
    by (simp add: host_nat_fails_def)
  have u: "exec host_up [] ''VBoxManage'' [''controlvm'', ''vm1'', ''poweroff''] = Exited 0 []"
    by (simp add: host_up_def host_exec_def)
  have a: "VBoxManage host_missing [''list'', ''vms''] [] =
      (Some (OsError ''executable file not found in $PATH''),
       [] @ [Run ''VBoxManage'' [''list'', ''vms'']])"
    by (rule VBoxManage_results [THEN conjunct1, THEN mp, OF m])
  have b: "VBoxManage host_nat_fails [''modifyvm'', ''vm1'', ''--natpf1'', ''r''] [] =
      (Some (Errorf (''VBoxManage [''
          @ strings_Join [''modifyvm'', ''vm1'', ''--natpf1'', ''r''] '' '' @ '']'')),
       [] @ [Run ''VBoxManage'' [''modifyvm'', ''vm1'', ''--natpf1'', ''r'']])"
    by (rule VBoxManage_results [THEN conjunct2, THEN conjunct1, THEN mp, OF n, THEN conjunct1])
  have c: "VBoxManage host_up [''controlvm'', ''vm1'', ''poweroff''] [] =
      (None, [] @ [Run ''VBoxManage'' [''controlvm'', ''vm1'', ''poweroff'']])"
    by (rule VBoxManage_results [THEN conjunct2, THEN conjunct2, THEN mp, OF u])
  show ?thesis
    using m n u unfolding a b c by simp
qed

section \<open>The inventory parser and the NAT rule translator\<close>

lemma FindStringSubmatch_match:
  assumes "dq \<notin> set pre" and "dq \<notin> set post"
  shows "FindStringSubmatch (pre @ dq # mid @ dq # post) = [dq # mid @ [dq], mid]"
proof -
  have skip: "dropWhile (\<lambda>ch. ch \<noteq> dq) (xs @ dq # ys) = dq # ys" if "dq \<notin> set xs" for xs ys
  proof -
    have "\<And>x. x \<in> set xs \<Longrightarrow> x \<noteq> dq"
      using that by auto
    then have "dropWhile (\<lambda>ch. ch \<noteq> dq) (xs @ dq # ys) = dropWhile (\<lambda>ch. ch \<noteq> dq) (dq # ys)"
      by (rule dropWhile_append2)
    then show ?thesis by simp
  qed
  have front: "dropWhile (\<lambda>ch. ch \<noteq> dq) (pre @ dq # mid @ dq # post) = dq # mid @ dq # post"
    using assms(1) by (rule skip)
  have "dq \<notin> set (rev post)"
    using assms(2) by simp
  then have "dropWhile (\<lambda>ch. ch \<noteq> dq) (rev post @ dq # rev mid) = dq # rev mid"
    by (rule skip)
  then have grp: "rev (tl (dropWhile (\<lambda>ch. ch \<noteq> dq) (rev (mid @ dq # post)))) = mid"
    by simp
  show ?thesis
    unfolding FindStringSubmatch_def front using grp by simp
qed

lemma has_quoted_token_split:
  assumes "has_quoted_token line"
  shows "\<exists>pre mid post. line = pre @ dq # mid @ dq # post \<and> dq \<notin> set pre \<and> dq \<notin> set post"
proof -
  have "filter (\<lambda>ch. ch = dq) line \<noteq> []"
    using assms by (auto simp: has_quoted_token_def)
  then have "dq \<in> set line"
    by (auto simp: filter_empty_conv)
  then obtain pre after where l: "line = pre @ dq # after" "dq \<notin> set pre"
    by (meson split_list_first)
  have "filter (\<lambda>ch. ch = dq) pre = []"
    using l(2) by (auto simp: filter_empty_conv)
  then have "1 \<le> length (filter (\<lambda>ch. ch = dq) after)"
    using assms l(1) by (simp add: has_quoted_token_def)
  then have "filter (\<lambda>ch. ch = dq) after \<noteq> []"
    by auto
  then have "dq \<in> set after"
    by (auto simp: filter_empty_conv)
  then obtain mid post where a: "after = mid @ dq # post" "dq \<notin> set post"
    by (meson split_list_last)
  show ?thesis
    using l a by blast
qed

lemma FindStringSubmatch_none:
  assumes "\<not> has_quoted_token line"
  shows "FindStringSubmatch line = []"
proof (cases "dropWhile (\<lambda>ch. ch \<noteq> dq) line")
  case Nil
  show ?thesis unfolding FindStringSubmatch_def Nil by simp
next
  case (Cons q after)
  have q: "q = dq"
    using Cons hd_dropWhile [of "\<lambda>ch. ch \<noteq> dq" line] by auto
  have l: "takeWhile (\<lambda>ch. ch \<noteq> dq) line @ dq # after = line"
    using takeWhile_dropWhile_id [of "\<lambda>ch. ch \<noteq> dq" line] unfolding Cons q by simp
  have "length (filter (\<lambda>ch. ch = dq) line) =
      length (filter (\<lambda>ch. ch = dq) (takeWhile (\<lambda>ch. ch \<noteq> dq) line @ dq # after))"
    by (simp only: l)
  then have "length (filter (\<lambda>ch. ch = dq) line) =
      length (filter (\<lambda>ch. ch = dq) (takeWhile (\<lambda>ch. ch \<noteq> dq) line))
      + 1 + length (filter (\<lambda>ch. ch = dq) after)"
    by simp
  then have "length (filter (\<lambda>ch. ch = dq) after) = 0"
    using assms unfolding has_quoted_token_def by linarith
  then have "dq \<notin> set after"
    by (auto simp: filter_empty_conv)
  then show ?thesis
    unfolding FindStringSubmatch_def Cons by simp
qed

lemma FindStringSubmatch_length:
  "(length (FindStringSubmatch line) > 0) = has_quoted_token line"
proof (cases "has_quoted_token line")
  case True
  then obtain pre mid post where
    "line = pre @ dq # mid @ dq # post" "dq \<notin> set pre" "dq \<notin> set post"
    using has_quoted_token_split by blast
  then show ?thesis
    using True by (simp add: FindStringSubmatch_match)
next
  case False
  then show ?thesis
    by (simp add: FindStringSubmatch_none)
qed

lemma vmList_loop_eq:
  "vmList_loop lines vms =
     vms @ map (\<lambda>line. FindStringSubmatch line ! 1) (filter has_quoted_token lines)"
proof (induction lines arbitrary: vms)
  case Nil
  show ?case by simp
next
  case (Cons line lines)
  show ?case
    using FindStringSubmatch_length [of line]
    by (simp add: Cons.IH Let_def del: length_greater_0_conv)
qed


lemma inventory_example:
  "vmList_loop (strings_Split (dq # ''vm1'' @ [dq] @ '' {uuid}'' @ [nl] @ ''garbage line'') nl) []
     = [''vm1'']"
  by code_simp

text \<open>Claim C5. When the list command cannot be started or exits with a nonzero status,
  \<open>vmList\<close> returns that failure and no names. Otherwise it returns, in order, the parsed
  name of every line of the output that holds a quoted token, and skips the other lines; the
  two lines \<open>"vm1" {uuid}\<close> and \<open>garbage line\<close> give exactly the list of \<open>vm1\<close>.\<close>

theorem vmList_parses_quoted_lines:
  "(exec w tr ''VBoxManage'' [''list'', ''vms''] = StartFailed err \<longrightarrow>
      fst (vmList w tr) = Inl err)
   \<and> (exec w tr ''VBoxManage'' [''list'', ''vms''] = Exited status out \<and> status \<noteq> 0 \<longrightarrow>
      fst (vmList w tr) = Inl (ExitError status))
   \<and> (exec w tr ''VBoxManage'' [''list'', ''vms''] = Exited 0 out \<longrightarrow>
      fst (vmList w tr) =
        Inr (map (\<lambda>line. FindStringSubmatch line ! 1)
               (filter has_quoted_token (strings_Split out nl))))
   \<and> (exec w tr ''VBoxManage'' [''list'', ''vms''] =
        Exited 0 (dq # ''vm1'' @ [dq] @ '' {uuid}'' @ [nl] @ ''garbage line'') \<longrightarrow>
      fst (vmList w tr) = Inr [''vm1''])"
proof (intro conjI impI)
  assume "exec w tr ''VBoxManage'' [''list'', ''vms''] = StartFailed err"
  then show "fst (vmList w tr) = Inl err"
    by (simp add: vmList_def)
next
  assume "exec w tr ''VBoxManage'' [''list'', ''vms''] = Exited status out \<and> status \<noteq> 0"
  then show "fst (vmList w tr) = Inl (ExitError status)"
    by (simp add: vmList_def)
next
  assume "exec w tr ''VBoxManage'' [''list'', ''vms''] = Exited 0 out"
  then show "fst (vmList w tr) =
        Inr (map (\<lambda>line. FindStringSubmatch line ! 1)
               (filter has_quoted_token (strings_Split out nl)))"
    by (simp add: vmList_def vmList_loop_eq)
next
  assume "exec w tr ''VBoxManage'' [''list'', ''vms''] =
        Exited 0 (dq # ''vm1'' @ [dq] @ '' {uuid}'' @ [nl] @ ''garbage line'')"
  then have "fst (vmList w tr) =
      Inr (vmList_loop
        (strings_Split (dq # ''vm1'' @ [dq] @ '' {uuid}'' @ [nl] @ ''garbage line'') nl) [])"
    by (simp add: vmList_def)
  then show "fst (vmList w tr) = Inr [''vm1'']"
    by (simp only: inventory_example)
qed

theorem vmList_parses_quoted_lines_witness:
  "exec host_missing [] ''VBoxManage'' [''list'', ''vms''] =
     StartFailed (OsError ''executable file not found in $PATH'')
   \<and> fst (vmList host_missing []) = Inl (OsError ''executable file not found in $PATH'')
   \<and> exec host_up [] ''VBoxManage'' [''list'', ''vms''] =
       Exited 0 (dq # ''vm1'' @ [dq] @ '' {uuid}'' @ [nl] @ ''garbage line'')
   \<and> fst (vmList host_up []) = Inr [''vm1'']"
proof -
  have m: "exec host_missing [] ''VBoxManage'' [''list'', ''vms''] =
     StartFailed (OsError ''executable file not found in $PATH'')"
    by (simp add: host_missing_def)
  have u: "exec host_up [] ''VBoxManage'' [''list'', ''vms''] =
       Exited 0 (dq # ''vm1'' @ [dq] @ '' {uuid}'' @ [nl] @ ''garbage line'')"
    by (simp add: host_up_def host_exec_def inventory_text_def)
  have a: "fst (vmList host_missing []) = Inl (OsError ''executable file not found in $PATH'')"
    by (rule vmList_parses_quoted_lines [THEN conjunct1, THEN mp, OF m])
  have b: "fst (vmList host_up []) = Inr [''vm1'']"
    by (rule vmList_parses_quoted_lines [THEN conjunct2, THEN conjunct2, THEN conjunct2,
          THEN mp, OF u])
  show ?thesis
    by (intro conjI m a u b)
qed

lemma two_tokens_example:
  "vmList_loop [dq # ''a'' @ [dq] @ '' '' @ [dq] @ ''b'' @ [dq]] [] =
     [''a'' @ [dq] @ '' '' @ [dq] @ ''b'']"
  by code_simp

text \<open>Claim C9. On a line with a first double quote and a last one after it, the parsed
  name is everything between these two, whatever it holds, so that a line with two quoted
  tokens gives one name that spans both; each line contributes at most one name. The line
  \<open>"a" "b"\<close> gives the single name \<open>a" "b\<close>.\<close>

theorem FindStringSubmatch_first_to_last_quote:
  "(dq \<notin> set pre \<and> dq \<notin> set post \<longrightarrow>
      FindStringSubmatch (pre @ dq # mid @ dq # post) = [dq # mid @ [dq], mid]
      \<and> vmList_loop [pre @ dq # mid @ dq # post] vms = vms @ [mid])
   \<and> length (vmList_loop [line] vms) \<le> length vms + 1
   \<and> vmList_loop [dq # ''a'' @ [dq] @ '' '' @ [dq] @ ''b'' @ [dq]] [] =
       [''a'' @ [dq] @ '' '' @ [dq] @ ''b'']"
proof (intro conjI impI)
  assume a: "dq \<notin> set pre \<and> dq \<notin> set post"
  then show m: "FindStringSubmatch (pre @ dq # mid @ dq # post) = [dq # mid @ [dq], mid]"
    by (simp add: FindStringSubmatch_match)
  show "vmList_loop [pre @ dq # mid @ dq # post] vms = vms @ [mid]"
    by (simp add: m)
next
  show "length (vmList_loop [line] vms) \<le> length vms + 1"
    by (simp add: vmList_loop_eq)
next
  show "vmList_loop [dq # ''a'' @ [dq] @ '' '' @ [dq] @ ''b'' @ [dq]] [] =
       [''a'' @ [dq] @ '' '' @ [dq] @ ''b'']"
    by (rule two_tokens_example)
qed

theorem FindStringSubmatch_first_to_last_quote_witness:
  "dq \<notin> set ''x '' \<and> dq \<notin> set '' y''
   \<and> FindStringSubmatch (''x '' @ dq # (''a'' @ [dq] @ '' '' @ [dq] @ ''b'') @ dq # '' y'') =
       [dq # (''a'' @ [dq] @ '' '' @ [dq] @ ''b'') @ [dq], ''a'' @ [dq] @ '' '' @ [dq] @ ''b'']
   \<and> vmList_loop [''x '' @ dq # (''a'' @ [dq] @ '' '' @ [dq] @ ''b'') @ dq # '' y''] [''vm0''] =
       [''vm0'', ''a'' @ [dq] @ '' '' @ [dq] @ ''b'']"
proof -
  have h: "dq \<notin> set ''x '' \<and> dq \<notin> set '' y''"
    by (simp add: dq_def)
  note t = FindStringSubmatch_first_to_last_quote [THEN conjunct1, THEN mp, OF h,
      of "''a'' @ [dq] @ '' '' @ [dq] @ ''b''" "[''vm0'']"]
  show ?thesis
    using h t by simp
qed

text \<open>Claim C4. The translation of a NAT rule is a function of the rule alone: the string
  \<open>guest\<close>, guest port, \<open>,tcp,,\<close>, host port, \<open>,,\<close>, guest port. When the ports hold no
  comma, its comma-separated fields are the rule name, the protocol \<open>tcp\<close>, an empty host
  address, the host port, an empty guest address and the guest port. \<open>vmSetupNAT\<close> issues
  for the rule at each position the command built from that rule alone, whatever the
  position.\<close>

theorem natRule_fields:
  "natRule rule = ''guest'' @ GuestPort rule @ '',tcp,,'' @ HostPort rule @ '',,'' @ GuestPort rule
   \<and> (CHR '','' \<notin> set (GuestPort rule) \<and> CHR '','' \<notin> set (HostPort rule) \<longrightarrow>
        strings_Split (natRule rule) CHR '','' =
          [''guest'' @ GuestPort rule, ''tcp'', [], HostPort rule, [], GuestPort rule])
   \<and> (\<exists>k\<le>length (NatRules c).
        snd (vmSetupNAT w c tr) =
          tr @ map (\<lambda>rule. Run ''VBoxManage'' [''modifyvm'', Name c, ''--natpf1'', natRule rule])
                 (take k (NatRules c)))"
proof (intro conjI impI)
  show "natRule rule =
      ''guest'' @ GuestPort rule @ '',tcp,,'' @ HostPort rule @ '',,'' @ GuestPort rule"
    by (simp add: natRule_def)
next
  assume a: "CHR '','' \<notin> set (GuestPort rule) \<and> CHR '','' \<notin> set (HostPort rule)"
  then have gp: "CHR '','' \<notin> set (GuestPort rule)" and hp: "CHR '','' \<notin> set (HostPort rule)"
    by simp_all
  have g: "CHR '','' \<notin> set (''guest'' @ GuestPort rule)"
    using gp by simp
  have s1: "strings_Split (CHR '','' # GuestPort rule) CHR '','' = [[], GuestPort rule]"
    using strings_Split_no_sep [OF gp] by simp
  have s2: "strings_Split (HostPort rule @ CHR '','' # CHR '','' # GuestPort rule) CHR '','' =
      [HostPort rule, [], GuestPort rule]"
    using strings_Split_field [OF hp] s1 by simp
  have s3: "strings_Split (''tcp,,'' @ HostPort rule @ CHR '','' # CHR '','' # GuestPort rule)
      CHR '','' = [''tcp'', [], HostPort rule, [], GuestPort rule]"
    using s2 by simp
  have "natRule rule =
      (''guest'' @ GuestPort rule) @ CHR '','' #
      (''tcp,,'' @ HostPort rule @ CHR '','' # CHR '','' # GuestPort rule)"
    by (simp add: natRule_def)
  then show "strings_Split (natRule rule) CHR '','' =
          [''guest'' @ GuestPort rule, ''tcp'', [], HostPort rule, [], GuestPort rule]"
    using strings_Split_field [OF g] s3 by simp
next
  let ?f = "\<lambda>rule. [''modifyvm'', Name c, ''--natpf1'', natRule rule]"
  obtain k where k: "k \<le> length (map ?f (NatRules c))"
    "snd (run_steps w (map ?f (NatRules c)) tr) =
       tr @ map (Run ''VBoxManage'') (take k (map ?f (NatRules c)))"
    using run_steps_shape [of "map ?f (NatRules c)" w tr] by (elim exE conjE) (rule that)
  have "snd (vmSetupNAT w c tr) =
      tr @ map (\<lambda>rule. Run ''VBoxManage'' (?f rule)) (take k (NatRules c))"
    using k(2) by (simp add: vmSetupNAT_def vmSetupNAT_loop_run_steps take_map)
  then show "\<exists>k\<le>length (NatRules c).
        snd (vmSetupNAT w c tr) =
          tr @ map (\<lambda>rule. Run ''VBoxManage'' [''modifyvm'', Name c, ''--natpf1'', natRule rule])
                 (take k (NatRules c))"
    using k(1) by auto
qed

theorem natRule_fields_witness:
  "CHR '','' \<notin> set ''8080'' \<and> CHR '','' \<notin> set ''9090''
   \<and> natRule \<lparr>GuestPort = ''8080'', HostPort = ''9090''\<rparr> = ''guest8080,tcp,,9090,,8080''
   \<and> strings_Split (natRule \<lparr>GuestPort = ''8080'', HostPort = ''9090''\<rparr>) CHR '','' =
       [''guest8080'', ''tcp'', [], ''9090'', [], ''8080'']"
proof -
  let ?r = "\<lparr>GuestPort = ''8080'', HostPort = ''9090''\<rparr>"
  have h: "CHR '','' \<notin> set (GuestPort ?r) \<and> CHR '','' \<notin> set (HostPort ?r)"
    by simp
  have a: "natRule ?r = ''guest'' @ GuestPort ?r @ '',tcp,,'' @ HostPort ?r @ '',,'' @ GuestPort ?r"
    by (rule natRule_fields [THEN conjunct1])
  have b: "strings_Split (natRule ?r) CHR '','' =
      [''guest'' @ GuestPort ?r, ''tcp'', [], HostPort ?r, [], GuestPort ?r]"
    by (rule natRule_fields [THEN conjunct2, THEN conjunct1, THEN mp, OF h])
  show ?thesis
    using h a b by simp
qed

end
